theory Spec2Isabelle
  imports Main
begin

unbundle bit_operations_syntax

section \<open>Data model\<close>

text \<open>
  The engine of \<^verbatim>\<open>memory-failure_clone.c\<close> works on page descriptors
  (\<^verbatim>\<open>struct page\<close>).  A page pointer is identified with its frame number
  (\<^verbatim>\<open>page_to_pfn\<close> and \<^verbatim>\<open>pfn_to_page\<close> are inverse bijections), so
  \<^verbatim>\<open>page - n\<close> is subtraction on frame numbers.

  \<^verbatim>\<open>page->flags\<close> is a bit set whose bit numbers \<^verbatim>\<open>PG_xxx\<close> are distinct
  positions declared by the kernel headers: it is modelled as the set of the bit names that
  are set, \<^verbatim>\<open>1UL << PG_x\<close> is \<open>{PG_x}\<close>, \<^verbatim>\<open>|\<close> is union and
  \<^verbatim>\<open>&\<close> is intersection.  \<open>PG_other n\<close> stands for the bits this file never
  names.

  The reference count \<^verbatim>\<open>_count\<close> and the other C integers are unbounded
  integers: no claim made here depends on their wrapping around.  \<^verbatim>\<open>mapping\<close> is
  the raw pointer \<^verbatim>\<open>page->mapping\<close> (\<open>0\<close> is \<^verbatim>\<open>NULL\<close>).
\<close>

datatype pageflag =
    PG_locked | PG_error | PG_uptodate | PG_dirty | PG_lru | PG_active | PG_slab
  | PG_reserved | PG_writeback | PG_head | PG_tail | PG_compound | PG_swapcache
  | PG_swapbacked | PG_unevictable | PG_mlocked | PG_buddy | PG_hwpoison | PG_other nat

record page =
  flags :: "pageflag set"
  count :: int
  mapping :: nat
  index :: nat

text \<open>
  The part of the kernel the engine can see: the page descriptors, and the rest of the
  kernel's state (\<open>hidden\<close>), which only the collaborators read and write.
\<close>

record 'h world =
  pages :: "nat \<Rightarrow> page"
  hidden :: 'h

datatype pflag = PF_MCE_PROCESS | PF_MCE_EARLY

record task_struct =
  pid :: int
  comm :: string
  mm :: nat
  task_flags :: "pflag set"

record vm_area_struct =
  vm_start :: nat
  vm_mm :: nat

text \<open>
  \<^verbatim>\<open>struct to_kill\<close>; \<open>tk_ptr\<close> is the address \<^verbatim>\<open>kmalloc\<close> returned for
  the entry (what \<^verbatim>\<open>kfree\<close> is given), the list linkage \<^verbatim>\<open>nd\<close> is the HOL
  list that holds the entries; the linkage in memory is in the section on the notify list
  in memory.
\<close>

record to_kill =
  tk_ptr :: int
  tsk :: task_struct
  addr :: int
  addr_valid :: bool

datatype ttu_flag = TTU_UNMAP | TTU_IGNORE_MLOCK | TTU_IGNORE_ACCESS | TTU_IGNORE_HWPOISON

datatype gfp = GFP_ATOMIC | GFP_NOIO | GFP_KERNEL

text \<open>
  Every call the engine makes into the rest of the kernel.  Null pointers are \<open>0\<close>.
  \<open>Send_sig_info_SIGBUS_AO t addr trapno\<close> is \<^verbatim>\<open>send_sig_info(SIGBUS, &si, t)\<close>
  with \<^verbatim>\<open>si_code = BUS_MCEERR_AO\<close>, \<^verbatim>\<open>si_addr = addr\<close> and
  \<^verbatim>\<open>si_trapno = trapno\<close> (the advisory, catchable signal);
  \<open>Force_sig_SIGKILL t\<close> is \<^verbatim>\<open>force_sig(SIGKILL, t)\<close>.
  \<open>Migrate_pages p\<close> is \<^verbatim>\<open>migrate_pages\<close> on the list that holds \<open>p\<close>
  alone, with \<^verbatim>\<open>new_page\<close> as its allocation callback.
  \<open>Free_page p\<close> is what \<^verbatim>\<open>put_page\<close> does with a page whose last
  reference went away.
\<close>

datatype call =
    Lock_system_sleep
  | Unlock_system_sleep
  | Set_migratetype_isolate nat
  | Unset_migratetype_isolate nat
  | Spin_lock_irqsave_zone nat
  | Spin_unlock_irqrestore_zone nat
  | Lru_add_drain_all
  | Drain_all_pages
  | Shrink_slab
  | Isolate_lru_page nat
  | Delete_from_swap_cache nat
  | Error_remove_page nat nat
  | Try_to_release_page nat
  | Invalidate_inode_page nat
  | Mapping_set_error nat
  | Page_mkclean nat
  | Try_to_unmap nat "ttu_flag set"
  | Migrate_pages nat
  | Lock_page nat
  | Lock_page_nosync nat
  | Unlock_page nat
  | Wait_on_page_writeback nat
  | Kmalloc_to_kill gfp
  | Kfree int
  | Get_task_struct task_struct
  | Put_task_struct task_struct
  | Send_sig_info_SIGBUS_AO task_struct int int
  | Force_sig_SIGKILL task_struct
  | Read_lock_tasklist
  | Read_unlock_tasklist
  | Spin_lock_i_mmap nat
  | Spin_unlock_i_mmap nat
  | Page_lock_anon_vma nat
  | Page_unlock_anon_vma int
  | Free_page nat

datatype arg = Num int | Str string | Flags "pageflag set"

text \<open>
  What the engine does to the outside, in order: a \<^verbatim>\<open>printk\<close> /
  \<^verbatim>\<open>pr_debug\<close> line (format string and arguments; \<^verbatim>\<open>DEBUG\<close> is defined,
  so \<^verbatim>\<open>pr_debug\<close> prints), or a call into the kernel.
\<close>

datatype event = Printk string "arg list" | Call call

text \<open>
  The state the engine runs on: the kernel's memory, the quarantine ledger
  \<^verbatim>\<open>mce_bad_pages\<close>, and the trace of events so far.
\<close>

record 'h kstate =
  mem :: "'h world"
  mce_bad_pages :: int
  trace :: "event list"

text \<open>
  The collaborators, which are not part of this file.  \<open>kernel\<close> answers a call that
  returns a value or changes page descriptors: it gets the call and the memory and returns
  the C return value (\<open>0\<close> for \<^verbatim>\<open>void\<close>) and the memory afterwards; it can reach
  neither the ledger nor the trace.  The other fields are the queries of the kernel headers
  and the configuration constants.
\<close>

record 'h env =
  kernel :: "call \<Rightarrow> 'h world \<Rightarrow> int \<times> 'h world"
  compound_head :: "'h world \<Rightarrow> nat \<Rightarrow> nat"
  pfn_valid :: "'h world \<Rightarrow> nat \<Rightarrow> bool"
  page_order :: "'h world \<Rightarrow> nat \<Rightarrow> nat"
  page_mapped :: "'h world \<Rightarrow> nat \<Rightarrow> bool"
  page_mapcount :: "'h world \<Rightarrow> nat \<Rightarrow> int"
  PageKsm :: "'h world \<Rightarrow> nat \<Rightarrow> bool"
  PageAnon :: "'h world \<Rightarrow> nat \<Rightarrow> bool"
  page_mapping :: "'h world \<Rightarrow> nat \<Rightarrow> nat"
  page_has_private :: "'h world \<Rightarrow> nat \<Rightarrow> bool"
  mapping_cap_writeback_dirty :: "'h world \<Rightarrow> nat \<Rightarrow> bool"
  has_error_remove_page :: "'h world \<Rightarrow> nat \<Rightarrow> bool"
  for_each_process :: "'h world \<Rightarrow> task_struct list"
  sysctl_memory_failure_early_kill :: "'h world \<Rightarrow> int"
  anon_vma_head :: "'h world \<Rightarrow> int \<Rightarrow> vm_area_struct list"
  vma_prio_tree :: "'h world \<Rightarrow> nat \<Rightarrow> nat \<Rightarrow> vm_area_struct list"
  page_mapped_in_vma :: "'h world \<Rightarrow> nat \<Rightarrow> vm_area_struct \<Rightarrow> bool"
  page_address_in_vma :: "'h world \<Rightarrow> nat \<Rightarrow> vm_area_struct \<Rightarrow> int"
  MAX_ORDER :: nat
  PAGEFLAGS_EXTENDED :: bool
  PAGE_CACHE_SHIFT_minus_PAGE_SHIFT :: nat

text \<open>Constants of the kernel headers (\<^verbatim>\<open>errno.h\<close>, \<^verbatim>\<open>mm.h\<close>, \<^verbatim>\<open>rmap.h\<close>).\<close>

definition EIO :: int where "EIO = 5"
definition ENXIO :: int where "ENXIO = 6"
definition EFAULT :: int where "EFAULT = 14"
definition EBUSY :: int where "EBUSY = 16"
definition MF_COUNT_INCREASED :: int where "MF_COUNT_INCREASED = 1"
definition SWAP_SUCCESS :: int where "SWAP_SUCCESS = 0"
definition SWAP_FAIL :: int where "SWAP_FAIL = 2"

section \<open>Primitives\<close>

definition emit :: "event \<Rightarrow> 'h kstate \<Rightarrow> 'h kstate" where
  "emit e s = s\<lparr>trace := trace s @ [e]\<rparr>"

definition printk :: "string \<Rightarrow> arg list \<Rightarrow> 'h kstate \<Rightarrow> 'h kstate" where
  "printk fmt args s = emit (Printk fmt args) s"

text \<open>
  A call whose result the engine does not use and that leaves the page descriptors alone:
  the locks, the isolation of the page's block, \<^verbatim>\<open>force_sig\<close>, the task
  references and \<^verbatim>\<open>kfree\<close>.  Only the event is recorded.
\<close>

definition notify :: "call \<Rightarrow> 'h kstate \<Rightarrow> 'h kstate" where
  "notify c s = emit (Call c) s"

text \<open>A call answered by the collaborators: the result, and the memory they leave.\<close>

definition extern :: "'h env \<Rightarrow> call \<Rightarrow> 'h kstate \<Rightarrow> int \<times> 'h kstate" where
  "extern env c s =
     (case kernel env c (mem s) of
        (r, w) \<Rightarrow> (r, s\<lparr>mem := w, trace := trace s @ [Call c]\<rparr>))"

definition the_page :: "'h kstate \<Rightarrow> nat \<Rightarrow> page" where
  "the_page s p = pages (mem s) p"

definition set_page :: "nat \<Rightarrow> page \<Rightarrow> 'h kstate \<Rightarrow> 'h kstate" where
  "set_page p pg s = s\<lparr>mem := (mem s)\<lparr>pages := (pages (mem s))(p := pg)\<rparr>\<rparr>"

text \<open>\<^verbatim>\<open>PageXxx(p)\<close>, \<^verbatim>\<open>SetPageXxx(p)\<close>, \<^verbatim>\<open>ClearPageXxx(p)\<close> for the flag
  \<^verbatim>\<open>PG_xxx\<close>.\<close>

definition PageFlag :: "pageflag \<Rightarrow> nat \<Rightarrow> 'h kstate \<Rightarrow> bool" where
  "PageFlag f p s = (f \<in> flags (the_page s p))"

definition SetPageFlag :: "pageflag \<Rightarrow> nat \<Rightarrow> 'h kstate \<Rightarrow> 'h kstate" where
  "SetPageFlag f p s = set_page p ((the_page s p)\<lparr>flags := insert f (flags (the_page s p))\<rparr>) s"

definition ClearPageFlag :: "pageflag \<Rightarrow> nat \<Rightarrow> 'h kstate \<Rightarrow> 'h kstate" where
  "ClearPageFlag f p s = set_page p ((the_page s p)\<lparr>flags := flags (the_page s p) - {f}\<rparr>) s"

text \<open>\<^verbatim>\<open>TestClearPageHWPoison\<close> and its kin: the old value, and the flag cleared.\<close>

definition TestClearPageFlag :: "pageflag \<Rightarrow> nat \<Rightarrow> 'h kstate \<Rightarrow> bool \<times> 'h kstate" where
  "TestClearPageFlag f p s = (PageFlag f p s, ClearPageFlag f p s)"

text \<open>\<^verbatim>\<open>page_count(p)\<close> reads the count of the compound head.\<close>

definition page_count :: "'h env \<Rightarrow> 'h kstate \<Rightarrow> nat \<Rightarrow> int" where
  "page_count env s p = count (the_page s (compound_head env (mem s) p))"

text \<open>\<^verbatim>\<open>get_page_unless_zero(page)\<close>: \<^verbatim>\<open>atomic_inc_not_zero\<close> on the count.\<close>

definition get_page_unless_zero :: "nat \<Rightarrow> 'h kstate \<Rightarrow> bool \<times> 'h kstate" where
  "get_page_unless_zero p s =
     (if count (the_page s p) = 0 then (False, s)
      else (True, set_page p ((the_page s p)\<lparr>count := count (the_page s p) + 1\<rparr>) s))"

text \<open>
  \<^verbatim>\<open>put_page(page)\<close> (and \<^verbatim>\<open>page_cache_release\<close>, the same function): drop one
  reference of the compound head; the reference that reaches zero hands the page to the
  allocator.
\<close>

definition put_page :: "'h env \<Rightarrow> nat \<Rightarrow> 'h kstate \<Rightarrow> 'h kstate" where
  "put_page env p s =
     (let h = compound_head env (mem s) p;
          s1 = set_page h ((the_page s h)\<lparr>count := count (the_page s h) - 1\<rparr>) s
      in if count (the_page s1 h) = 0 then snd (extern env (Free_page h) s1) else s1)"

text \<open>The events a run added to the trace.\<close>

definition new_events :: "'h kstate \<Rightarrow> 'h kstate \<Rightarrow> event list" where
  "new_events s s' = drop (length (trace s)) (trace s')"

section \<open>Free-page detection and quarantine acquisition\<close>

text \<open>
  The loop of \<^verbatim>\<open>is_free_buddy_page__clone\<close>: the value of \<^verbatim>\<open>order\<close> when the
  loop is left.  \<^verbatim>\<open>pfn & ((1 << order) - 1)\<close> is \<open>pfn mod 2 ^ order\<close>.
\<close>

function buddy_order :: "'h env \<Rightarrow> 'h world \<Rightarrow> nat \<Rightarrow> nat \<Rightarrow> nat" where
  "buddy_order env w pfn order =
     (if order < MAX_ORDER env then
        (let page_head = pfn - pfn mod 2 ^ order
         in if PG_buddy \<in> flags (pages w page_head) \<and> page_order env w page_head \<ge> order
            then order
            else buddy_order env w pfn (order + 1))
      else order)"
  by pat_completeness auto
termination
  by (relation "measure (\<lambda>(env, w, pfn, order). MAX_ORDER env - order)") auto

declare buddy_order.simps [simp del]

definition is_free_buddy_page__clone :: "'h env \<Rightarrow> nat \<Rightarrow> 'h kstate \<Rightarrow> bool \<times> 'h kstate" where
  "is_free_buddy_page__clone env page s =
     (let s1 = notify (Spin_lock_irqsave_zone page) s;
          order = buddy_order env (mem s1) page 0;
          s2 = notify (Spin_unlock_irqrestore_zone page) s1
      in (order < MAX_ORDER env, s2))"

definition get_any_page :: "'h env \<Rightarrow> nat \<Rightarrow> nat \<Rightarrow> int \<Rightarrow> 'h kstate \<Rightarrow> int \<times> 'h kstate" where
  "get_any_page env p pfn flgs s =
     (if flgs AND MF_COUNT_INCREASED \<noteq> 0 then (1, s)
      else
        let s1 = notify Lock_system_sleep s;
            s2 = notify (Set_migratetype_isolate p) s1;
            (got, s3) = get_page_unless_zero (compound_head env (mem s2) p) s2;
            (ret, s4) =
              (if \<not> got then
                 (case is_free_buddy_page__clone env p s3 of
                    (free, s') \<Rightarrow>
                      if free then
                        (0, SetPageFlag PG_hwpoison p
                              (printk ''get_any_page: %#lx free buddy page'' [Num (int pfn)] s'))
                      else
                        (- EIO,
                         printk ''get_any_page: %#lx: unknown zero refcount page type %lx''
                           [Num (int pfn), Flags (flags (the_page s' p))] s'))
               else (1, s3));
            s5 = notify (Unset_migratetype_isolate p) s4;
            s6 = notify Unlock_system_sleep s5
        in (ret, s6))"

section \<open>Signalling and reclaim pressure\<close>

definition kill_proc_ao ::
  "'h env \<Rightarrow> task_struct \<Rightarrow> int \<Rightarrow> int \<Rightarrow> nat \<Rightarrow> 'h kstate \<Rightarrow> int \<times> 'h kstate" where
  "kill_proc_ao env t a trapno pfn s =
     (let s1 = printk ''MCE %#lx: Killing %s:%d early due to hardware memory corruption''
                 [Num (int pfn), Str (comm t), Num (pid t)] s
      in case extern env (Send_sig_info_SIGBUS_AO t a trapno) s1 of
           (ret, s2) \<Rightarrow>
             if ret < 0 then
               (ret, printk ''MCE: Error sending signal to %s:%d: %d''
                       [Str (comm t), Num (pid t), Num ret] s2)
             else (ret, s2))"

text \<open>
  The \<^verbatim>\<open>do ... while (nr > 10)\<close> loop of \<^verbatim>\<open>shake_page__clone\<close>.  Nothing
  bounds it: a run that never leaves it has the value \<open>None\<close>.
\<close>

partial_function (option) shrink_slab_loop ::
  "'h env \<Rightarrow> nat \<Rightarrow> 'h kstate \<Rightarrow> 'h kstate option" where
  "shrink_slab_loop env p s =
     (case extern env Shrink_slab s of
        (nr, s1) \<Rightarrow>
          if page_count env s1 p = 0 then Some s1
          else if nr > 10 then shrink_slab_loop env p s1
          else Some s1)"

definition shake_slab :: "'h env \<Rightarrow> nat \<Rightarrow> int \<Rightarrow> 'h kstate \<Rightarrow> 'h kstate option" where
  "shake_slab env p access s = (if access \<noteq> 0 then shrink_slab_loop env p s else Some s)"

definition shake_page__clone :: "'h env \<Rightarrow> nat \<Rightarrow> int \<Rightarrow> 'h kstate \<Rightarrow> 'h kstate option" where
  "shake_page__clone env p access s =
     (if \<not> PageFlag PG_slab p s then
        (let s1 = snd (extern env Lru_add_drain_all s)
         in if PageFlag PG_lru p s1 then Some s1
            else
              let s2 = snd (extern env Drain_all_pages s1)
              in if PageFlag PG_lru p s2 then Some s2
                 else
                   (case is_free_buddy_page__clone env p s2 of
                      (free, s3) \<Rightarrow> if free then Some s3 else shake_slab env p access s3))
      else shake_slab env p access s)"

section \<open>Mapping collector and kill execution\<close>

text \<open>
  \<^verbatim>\<open>add_to_kill\<close>.  The list under construction, the preallocated entry
  \<^verbatim>\<open>*tkc\<close> (\<open>0\<close> once used) and the state travel together.
\<close>

definition add_to_kill ::
  "'h env \<Rightarrow> task_struct \<Rightarrow> nat \<Rightarrow> vm_area_struct \<Rightarrow>
   to_kill list \<times> int \<times> 'h kstate \<Rightarrow> to_kill list \<times> int \<times> 'h kstate" where
  "add_to_kill env t p vma st =
     (case st of
        (tokill, tkc, s) \<Rightarrow>
          (case (if tkc \<noteq> 0 then (tkc, 0, s)
                 else (case extern env (Kmalloc_to_kill GFP_ATOMIC) s of
                         (tk, s') \<Rightarrow> (tk, tkc, s'))) of
             (tk, tkc', s1) \<Rightarrow>
               if tk = 0 then
                 (tokill, tkc',
                  printk ''MCE: Out of memory while machine check handling'' [] s1)
               else
                 let a = page_address_in_vma env (mem s1) p vma;
                     s2 = (if a = - EFAULT then
                             printk ''MCE: Unable to find user space address %lx in %s''
                               [Num (int p), Str (comm t)] s1
                           else s1);
                     s3 = notify (Get_task_struct t) s2
                 in (tokill @ [\<lparr>tk_ptr = tk, tsk = t, addr = a, addr_valid = (a \<noteq> - EFAULT)\<rparr>],
                     tkc', s3)))"

text \<open>
  \<^verbatim>\<open>kill_procs_ao\<close>: \<^verbatim>\<open>list_for_each_entry_safe\<close> over the list, as
  recursion on it.
\<close>

fun kill_procs_ao ::
  "'h env \<Rightarrow> to_kill list \<Rightarrow> int \<Rightarrow> int \<Rightarrow> int \<Rightarrow> nat \<Rightarrow> 'h kstate \<Rightarrow> 'h kstate" where
  "kill_procs_ao env [] doit trapno fail pfn s = s"
| "kill_procs_ao env (tk # next) doit trapno fail pfn s =
     (let s1 =
            (if doit \<noteq> 0 then
               (if fail \<noteq> 0 \<or> \<not> addr_valid tk then
                  notify (Force_sig_SIGKILL (tsk tk))
                    (printk ''MCE %#lx: forcibly killing %s:%d because of failure to unmap corrupted page''
                       [Num (int pfn), Str (comm (tsk tk)), Num (pid (tsk tk))] s)
                else
                  (case kill_proc_ao env (tsk tk) (addr tk) trapno pfn s of
                     (r, s') \<Rightarrow>
                       if r < 0 then
                         printk ''MCE %#lx: Cannot send advisory machine check signal to %s:%d''
                           [Num (int pfn), Str (comm (tsk tk)), Num (pid (tsk tk))] s'
                       else s'))
             else s);
          s2 = notify (Put_task_struct (tsk tk)) s1;
          s3 = notify (Kfree (tk_ptr tk)) s2
      in kill_procs_ao env next doit trapno fail pfn s3)"

definition task_early_kill :: "'h env \<Rightarrow> 'h world \<Rightarrow> task_struct \<Rightarrow> int" where
  "task_early_kill env w t =
     (if mm t = 0 then 0
      else if PF_MCE_PROCESS \<in> task_flags t then (if PF_MCE_EARLY \<in> task_flags t then 1 else 0)
      else sysctl_memory_failure_early_kill env w)"

text \<open>The inner loop of \<^verbatim>\<open>collect_procs_anon\<close>, over the chain of the anon_vma.\<close>

fun collect_anon_vmas ::
  "'h env \<Rightarrow> nat \<Rightarrow> task_struct \<Rightarrow> vm_area_struct list \<Rightarrow>
   to_kill list \<times> int \<times> 'h kstate \<Rightarrow> to_kill list \<times> int \<times> 'h kstate" where
  "collect_anon_vmas env page t [] st = st"
| "collect_anon_vmas env page t (vma # vmas) st =
     (if \<not> page_mapped_in_vma env (mem (snd (snd st))) page vma then
        collect_anon_vmas env page t vmas st
      else if vm_mm vma = mm t then
        collect_anon_vmas env page t vmas (add_to_kill env t page vma st)
      else collect_anon_vmas env page t vmas st)"

text \<open>The outer loop of \<^verbatim>\<open>collect_procs_anon\<close>: \<^verbatim>\<open>for_each_process\<close>.\<close>

fun collect_anon_tasks ::
  "'h env \<Rightarrow> nat \<Rightarrow> int \<Rightarrow> task_struct list \<Rightarrow>
   to_kill list \<times> int \<times> 'h kstate \<Rightarrow> to_kill list \<times> int \<times> 'h kstate" where
  "collect_anon_tasks env page av [] st = st"
| "collect_anon_tasks env page av (t # ts) st =
     (if task_early_kill env (mem (snd (snd st))) t = 0 then
        collect_anon_tasks env page av ts st
      else
        collect_anon_tasks env page av ts
          (collect_anon_vmas env page t (anon_vma_head env (mem (snd (snd st))) av) st))"

definition collect_procs_anon ::
  "'h env \<Rightarrow> nat \<Rightarrow> to_kill list \<Rightarrow> int \<Rightarrow> 'h kstate \<Rightarrow> to_kill list \<times> int \<times> 'h kstate" where
  "collect_procs_anon env page tokill tkc s =
     (let s1 = notify Read_lock_tasklist s
      in case extern env (Page_lock_anon_vma page) s1 of
           (av, s2) \<Rightarrow>
             if av = 0 then (tokill, tkc, notify Read_unlock_tasklist s2)
             else
               (case collect_anon_tasks env page av (for_each_process env (mem s2))
                       (tokill, tkc, s2) of
                  (tokill', tkc', s3) \<Rightarrow>
                    (tokill', tkc',
                     notify Read_unlock_tasklist (notify (Page_unlock_anon_vma av) s3))))"

text \<open>The inner loop of \<^verbatim>\<open>collect_procs_file\<close>: \<^verbatim>\<open>vma_prio_tree_foreach\<close>.\<close>

fun collect_file_vmas ::
  "'h env \<Rightarrow> nat \<Rightarrow> task_struct \<Rightarrow> vm_area_struct list \<Rightarrow>
   to_kill list \<times> int \<times> 'h kstate \<Rightarrow> to_kill list \<times> int \<times> 'h kstate" where
  "collect_file_vmas env page t [] st = st"
| "collect_file_vmas env page t (vma # vmas) st =
     (if vm_mm vma = mm t then
        collect_file_vmas env page t vmas (add_to_kill env t page vma st)
      else collect_file_vmas env page t vmas st)"

fun collect_file_tasks ::
  "'h env \<Rightarrow> nat \<Rightarrow> nat \<Rightarrow> task_struct list \<Rightarrow>
   to_kill list \<times> int \<times> 'h kstate \<Rightarrow> to_kill list \<times> int \<times> 'h kstate" where
  "collect_file_tasks env page mapping' [] st = st"
| "collect_file_tasks env page mapping' (t # ts) st =
     (let s = snd (snd st);
          pgoff = index (the_page s page) * 2 ^ PAGE_CACHE_SHIFT_minus_PAGE_SHIFT env
      in if task_early_kill env (mem s) t = 0 then
           collect_file_tasks env page mapping' ts st
         else
           collect_file_tasks env page mapping' ts
             (collect_file_vmas env page t (vma_prio_tree env (mem s) mapping' pgoff) st))"

definition collect_procs_file ::
  "'h env \<Rightarrow> nat \<Rightarrow> to_kill list \<Rightarrow> int \<Rightarrow> 'h kstate \<Rightarrow> to_kill list \<times> int \<times> 'h kstate" where
  "collect_procs_file env page tokill tkc s =
     (let mapping' = mapping (the_page s page);
          s1 = notify Read_lock_tasklist s;
          s2 = notify (Spin_lock_i_mmap mapping') s1
      in case collect_file_tasks env page mapping' (for_each_process env (mem s2))
                (tokill, tkc, s2) of
           (tokill', tkc', s3) \<Rightarrow>
             (tokill', tkc',
              notify Read_unlock_tasklist (notify (Spin_unlock_i_mmap mapping') s3)))"

definition collect_procs ::
  "'h env \<Rightarrow> nat \<Rightarrow> to_kill list \<Rightarrow> 'h kstate \<Rightarrow> to_kill list \<times> 'h kstate" where
  "collect_procs env page tokill s =
     (if mapping (the_page s page) = 0 then (tokill, s)
      else
        (case extern env (Kmalloc_to_kill GFP_NOIO) s of
           (tk, s1) \<Rightarrow>
             if tk = 0 then (tokill, s1)
             else
               (case (if PageAnon env (mem s1) page
                      then collect_procs_anon env page tokill tk s1
                      else collect_procs_file env page tokill tk s1) of
                  (tokill', tkc, s2) \<Rightarrow> (tokill', notify (Kfree tkc) s2))))"

section \<open>Error handlers for the page states\<close>

datatype outcome = IGNORED | FAILED | DELAYED | RECOVERED

fun action_name :: "outcome \<Rightarrow> string" where
  "action_name IGNORED = ''Ignored''"
| "action_name FAILED = ''Failed''"
| "action_name DELAYED = ''Delayed''"
| "action_name RECOVERED = ''Recovered''"

definition delete_from_lru_cache :: "'h env \<Rightarrow> nat \<Rightarrow> 'h kstate \<Rightarrow> int \<times> 'h kstate" where
  "delete_from_lru_cache env p s =
     (case extern env (Isolate_lru_page p) s of
        (r, s1) \<Rightarrow>
          if r = 0 then
            (0, put_page env p (ClearPageFlag PG_unevictable p (ClearPageFlag PG_active p s1)))
          else (- EIO, s1))"

definition me_kernel :: "'h env \<Rightarrow> nat \<Rightarrow> nat \<Rightarrow> 'h kstate \<Rightarrow> outcome \<times> 'h kstate" where
  "me_kernel env p pfn s = (IGNORED, s)"

definition me_unknown :: "'h env \<Rightarrow> nat \<Rightarrow> nat \<Rightarrow> 'h kstate \<Rightarrow> outcome \<times> 'h kstate" where
  "me_unknown env p pfn s = (FAILED, printk ''MCE %#lx: Unknown page state'' [Num (int pfn)] s)"

definition me_pagecache_clean :: "'h env \<Rightarrow> nat \<Rightarrow> nat \<Rightarrow> 'h kstate \<Rightarrow> outcome \<times> 'h kstate" where
  "me_pagecache_clean env p pfn s =
     (let s1 = snd (delete_from_lru_cache env p s)
      in if PageAnon env (mem s1) p then (RECOVERED, s1)
         else
           let mapping' = page_mapping env (mem s1) p
           in if mapping' = 0 then (FAILED, s1)
              else if has_error_remove_page env (mem s1) mapping' then
                (case extern env (Error_remove_page mapping' p) s1 of
                   (err, s2) \<Rightarrow>
                     if err \<noteq> 0 then
                       (FAILED, printk ''MCE %#lx: Failed to punch page: %d''
                                  [Num (int pfn), Num err] s2)
                     else if page_has_private env (mem s2) p then
                       (case extern env (Try_to_release_page p) s2 of
                          (r, s3) \<Rightarrow>
                            if r = 0 then
                              (FAILED, printk ''MCE %#lx: failed to release buffers''
                                         [Num (int pfn)] s3)
                            else (RECOVERED, s3))
                     else (RECOVERED, s2))
              else
                (case extern env (Invalidate_inode_page p) s1 of
                   (r, s2) \<Rightarrow>
                     if r \<noteq> 0 then (RECOVERED, s2)
                     else (FAILED, printk ''MCE %#lx: Failed to invalidate''
                                     [Num (int pfn)] s2)))"

definition me_pagecache_dirty :: "'h env \<Rightarrow> nat \<Rightarrow> nat \<Rightarrow> 'h kstate \<Rightarrow> outcome \<times> 'h kstate" where
  "me_pagecache_dirty env p pfn s =
     (let mapping' = page_mapping env (mem s) p;
          s1 = SetPageFlag PG_error p s;
          s2 = (if mapping' \<noteq> 0 then snd (extern env (Mapping_set_error mapping') s1) else s1)
      in me_pagecache_clean env p pfn s2)"

definition me_swapcache_dirty :: "'h env \<Rightarrow> nat \<Rightarrow> nat \<Rightarrow> 'h kstate \<Rightarrow> outcome \<times> 'h kstate" where
  "me_swapcache_dirty env p pfn s =
     (let s1 = ClearPageFlag PG_dirty p s;
          s2 = ClearPageFlag PG_uptodate p s1
      in case delete_from_lru_cache env p s2 of
           (r, s3) \<Rightarrow> if r = 0 then (DELAYED, s3) else (FAILED, s3))"

definition me_swapcache_clean :: "'h env \<Rightarrow> nat \<Rightarrow> nat \<Rightarrow> 'h kstate \<Rightarrow> outcome \<times> 'h kstate" where
  "me_swapcache_clean env p pfn s =
     (let s1 = snd (extern env (Delete_from_swap_cache p) s)
      in case delete_from_lru_cache env p s1 of
           (r, s2) \<Rightarrow> if r = 0 then (RECOVERED, s2) else (FAILED, s2))"

definition me_huge_page :: "'h env \<Rightarrow> nat \<Rightarrow> nat \<Rightarrow> 'h kstate \<Rightarrow> outcome \<times> 'h kstate" where
  "me_huge_page env p pfn s = (FAILED, s)"

text \<open>
  The handlers as values of the table's function pointer \<^verbatim>\<open>action\<close>, and the
  indirect call \<^verbatim>\<open>ps->action(p, pfn)\<close>.
\<close>

datatype action =
    Me_kernel | Me_unknown | Me_pagecache_clean | Me_pagecache_dirty
  | Me_swapcache_dirty | Me_swapcache_clean | Me_huge_page

fun run_action ::
  "action \<Rightarrow> 'h env \<Rightarrow> nat \<Rightarrow> nat \<Rightarrow> 'h kstate \<Rightarrow> outcome \<times> 'h kstate" where
  "run_action Me_kernel = me_kernel"
| "run_action Me_unknown = me_unknown"
| "run_action Me_pagecache_clean = me_pagecache_clean"
| "run_action Me_pagecache_dirty = me_pagecache_dirty"
| "run_action Me_swapcache_dirty = me_swapcache_dirty"
| "run_action Me_swapcache_clean = me_swapcache_clean"
| "run_action Me_huge_page = me_huge_page"

record page_state =
  mask :: "pageflag set"
  res :: "pageflag set"
  msg :: string
  action :: action

text \<open>
  The table \<^verbatim>\<open>error_states[]\<close>, in the order of the source; its argument is
  \<^verbatim>\<open>CONFIG_PAGEFLAGS_EXTENDED\<close>.
\<close>

definition error_states :: "bool \<Rightarrow> page_state list" where
  "error_states extended =
     [\<lparr>mask = {PG_reserved}, res = {PG_reserved}, msg = ''reserved kernel'', action = Me_kernel\<rparr>,
      \<lparr>mask = {PG_slab}, res = {PG_slab}, msg = ''kernel slab'', action = Me_kernel\<rparr>] @
     (if extended then
        [\<lparr>mask = {PG_head}, res = {PG_head}, msg = ''huge'', action = Me_huge_page\<rparr>,
         \<lparr>mask = {PG_tail}, res = {PG_tail}, msg = ''huge'', action = Me_huge_page\<rparr>]
      else
        [\<lparr>mask = {PG_compound}, res = {PG_compound}, msg = ''huge'', action = Me_huge_page\<rparr>]) @
     [\<lparr>mask = {PG_swapcache, PG_dirty}, res = {PG_swapcache, PG_dirty}, msg = ''swapcache'',
         action = Me_swapcache_dirty\<rparr>,
      \<lparr>mask = {PG_swapcache, PG_dirty}, res = {PG_swapcache}, msg = ''swapcache'',
         action = Me_swapcache_clean\<rparr>,
      \<lparr>mask = {PG_unevictable, PG_dirty}, res = {PG_unevictable, PG_dirty},
         msg = ''unevictable LRU'', action = Me_pagecache_dirty\<rparr>,
      \<lparr>mask = {PG_unevictable}, res = {PG_unevictable}, msg = ''unevictable LRU'',
         action = Me_pagecache_clean\<rparr>,
      \<lparr>mask = {PG_mlocked, PG_dirty}, res = {PG_mlocked, PG_dirty}, msg = ''mlocked LRU'',
         action = Me_pagecache_dirty\<rparr>,
      \<lparr>mask = {PG_mlocked}, res = {PG_mlocked}, msg = ''mlocked LRU'',
         action = Me_pagecache_clean\<rparr>,
      \<lparr>mask = {PG_lru, PG_dirty}, res = {PG_lru, PG_dirty}, msg = ''LRU'',
         action = Me_pagecache_dirty\<rparr>,
      \<lparr>mask = {PG_lru, PG_dirty}, res = {PG_lru}, msg = ''clean LRU'',
         action = Me_pagecache_clean\<rparr>,
      \<lparr>mask = {}, res = {}, msg = ''unknown page state'', action = Me_unknown\<rparr>]"

text \<open>The row of \<^verbatim>\<open>error_states[]\<close> for a dirty swap-cache page.\<close>

definition sc_dirty_state :: page_state where
  "sc_dirty_state =
     \<lparr>mask = {PG_swapcache, PG_dirty}, res = {PG_swapcache, PG_dirty}, msg = ''swapcache'',
      action = Me_swapcache_dirty\<rparr>"

definition action_result :: "nat \<Rightarrow> string \<Rightarrow> outcome \<Rightarrow> 'h kstate \<Rightarrow> 'h kstate" where
  "action_result pfn m result s =
     printk ''MCE %#lx: %s%s page recovery: %s''
       [Num (int pfn), Str (if PageFlag PG_dirty pfn s then ''dirty '' else ''''), Str m,
        Str (action_name result)] s"

definition page_action ::
  "'h env \<Rightarrow> page_state \<Rightarrow> nat \<Rightarrow> nat \<Rightarrow> 'h kstate \<Rightarrow> int \<times> 'h kstate" where
  "page_action env ps p pfn s =
     (case run_action (action ps) env p pfn s of
        (result, s1) \<Rightarrow>
          let s2 = action_result pfn (msg ps) result s1;
              count0 = page_count env s2 p - 1;
              count1 = (if action ps = Me_swapcache_dirty \<and> result = DELAYED
                        then count0 - 1 else count0);
              (result', s3) =
                (if count1 \<noteq> 0 then
                   (FAILED, printk ''MCE %#lx: %s page still referenced by %d users''
                              [Num (int pfn), Str (msg ps), Num count1] s2)
                 else (result, s2))
          in (if result' = RECOVERED \<or> result' = DELAYED then 0 else - EBUSY, s3))"

text \<open>
  Modelled from the spec: the scan of the table is in \<^verbatim>\<open>memory_failure\<close>, which
  this file does not contain.  The spec (4.1): scan the ordered table; the first rule
  where \<^verbatim>\<open>(attributes & mask) == value\<close> is the one whose action is invoked.
\<close>

fun first_match :: "pageflag set \<Rightarrow> page_state list \<Rightarrow> page_state option" where
  "first_match fl [] = None"
| "first_match fl (ps # rest) = (if fl \<inter> mask ps = res ps then Some ps else first_match fl rest)"

section \<open>Unmap and notify\<close>

definition N_UNMAP_TRIES :: nat where "N_UNMAP_TRIES = 5"

text \<open>
  The retry loop of \<^verbatim>\<open>hwpoison_user_mappings\<close>: \<open>n\<close> tries are left, \<open>ret\<close> is
  the result of the last try.
\<close>

fun unmap_tries ::
  "'h env \<Rightarrow> nat \<Rightarrow> nat \<Rightarrow> ttu_flag set \<Rightarrow> nat \<Rightarrow> int \<Rightarrow> 'h kstate \<Rightarrow> int \<times> 'h kstate" where
  "unmap_tries env p pfn ttu 0 ret s = (ret, s)"
| "unmap_tries env p pfn ttu (Suc n) ret s =
     (case extern env (Try_to_unmap p ttu) s of
        (ret', s1) \<Rightarrow>
          if ret' = SWAP_SUCCESS then (ret', s1)
          else unmap_tries env p pfn ttu n ret'
                 (printk ''MCE %#lx: try_to_unmap retry needed %d'' [Num (int pfn), Num ret'] s1))"

definition PageCompound :: "'h env \<Rightarrow> nat \<Rightarrow> 'h kstate \<Rightarrow> bool" where
  "PageCompound env p s =
     (if PAGEFLAGS_EXTENDED env then PageFlag PG_head p s \<or> PageFlag PG_tail p s
      else PageFlag PG_compound p s)"

definition hwpoison_user_mappings ::
  "'h env \<Rightarrow> nat \<Rightarrow> nat \<Rightarrow> int \<Rightarrow> 'h kstate \<Rightarrow> int \<times> 'h kstate" where
  "hwpoison_user_mappings env p pfn trapno s =
     (if PageFlag PG_reserved p s \<or> PageFlag PG_slab p s then (SWAP_SUCCESS, s)
      else if \<not> page_mapped env (mem s) p then (SWAP_SUCCESS, s)
      else if PageCompound env p s \<or> PageKsm env (mem s) p then (SWAP_FAIL, s)
      else
        let ttu0 = {TTU_UNMAP, TTU_IGNORE_MLOCK, TTU_IGNORE_ACCESS};
            (ttu1, s1) =
              (if PageFlag PG_swapcache p s then
                 (insert TTU_IGNORE_HWPOISON ttu0,
                  printk ''MCE %#lx: keeping poisoned page in swap cache'' [Num (int pfn)] s)
               else (ttu0, s));
            mapping' = page_mapping env (mem s1) p;
            (kill, ttu2, s2) =
              (if \<not> PageFlag PG_dirty p s1 \<and> mapping' \<noteq> 0
                  \<and> mapping_cap_writeback_dirty env (mem s1) mapping' then
                 (case extern env (Page_mkclean p) s1 of
                    (r, s') \<Rightarrow>
                      if r \<noteq> 0 then (1 :: int, ttu1, SetPageFlag PG_dirty p s')
                      else
                        (0, insert TTU_IGNORE_HWPOISON ttu1,
                         printk ''MCE %#lx: corrupted page was clean: dropped without side effects''
                           [Num (int pfn)] s'))
               else (1, ttu1, s1));
            (tokill, s3) = (if kill \<noteq> 0 then collect_procs env p [] s2 else ([], s2));
            (ret, s4) = unmap_tries env p pfn ttu2 N_UNMAP_TRIES 0 s3;
            s5 = (if ret \<noteq> SWAP_SUCCESS then
                    printk ''MCE %#lx: failed to unmap page (mapcount=%d)''
                      [Num (int pfn), Num (page_mapcount env (mem s4) p)] s4
                  else s4);
            s6 = kill_procs_ao env tokill (if PageFlag PG_dirty p s5 then 1 else 0) trapno
                   (if ret \<noteq> SWAP_SUCCESS then 1 else 0) pfn s5
        in (ret, s6))"

section \<open>Unpoison\<close>

definition atomic_long_add :: "int \<Rightarrow> 'h kstate \<Rightarrow> 'h kstate" where
  "atomic_long_add i s = s\<lparr>mce_bad_pages := mce_bad_pages s + i\<rparr>"

definition atomic_long_dec :: "'h kstate \<Rightarrow> 'h kstate" where
  "atomic_long_dec s = s\<lparr>mce_bad_pages := mce_bad_pages s - 1\<rparr>"

definition unpoison_memory__clone :: "'h env \<Rightarrow> nat \<Rightarrow> 'h kstate \<Rightarrow> int \<times> 'h kstate" where
  "unpoison_memory__clone env pfn s =
     (if \<not> pfn_valid env (mem s) pfn then (- ENXIO, s)
      else
        let p = pfn;
            page' = compound_head env (mem s) p
        in if \<not> PageFlag PG_hwpoison p s then
             (0, printk ''MCE: Page was already unpoisoned %#lx'' [Num (int pfn)] s)
           else
             (case get_page_unless_zero page' s of
                (got, s1) \<Rightarrow>
                  if \<not> got then
                    (case TestClearPageFlag PG_hwpoison p s1 of
                       (was, s2) \<Rightarrow>
                         (0, printk ''MCE: Software-unpoisoned free page %#lx'' [Num (int pfn)]
                               (if was then atomic_long_dec s2 else s2)))
                  else
                    let s2 = snd (extern env (Lock_page_nosync page') s1);
                        (freeit, s3) =
                          (case TestClearPageFlag PG_hwpoison p s2 of
                             (was, s') \<Rightarrow>
                               if was then
                                 (True, atomic_long_dec
                                    (printk ''MCE: Software-unpoisoned page %#lx''
                                       [Num (int pfn)] s'))
                               else (False, s'));
                        s4 = snd (extern env (Unlock_page page') s3);
                        s5 = put_page env page' s4;
                        s6 = (if freeit then put_page env page' s5 else s5)
                    in (0, s6)))"

section \<open>Soft offline\<close>

text \<open>The label \<^verbatim>\<open>done:\<close> of \<^verbatim>\<open>soft_offline_page__clone\<close>.\<close>

definition soft_offline_done :: "nat \<Rightarrow> int \<Rightarrow> 'h kstate \<Rightarrow> int \<times> 'h kstate" where
  "soft_offline_done page' ret s = (ret, SetPageFlag PG_hwpoison page' (atomic_long_add 1 s))"

text \<open>From \<^verbatim>\<open>ret = isolate_lru_page(page)\<close> to the end of the function.\<close>

definition soft_offline_migrate :: "'h env \<Rightarrow> nat \<Rightarrow> nat \<Rightarrow> 'h kstate \<Rightarrow> int \<times> 'h kstate" where
  "soft_offline_migrate env page' pfn s =
     (case extern env (Isolate_lru_page page') s of
        (ret, s1) \<Rightarrow>
          (case (if ret = 0 then
                   (case extern env (Migrate_pages page') s1 of
                      (r, s2) \<Rightarrow>
                        if r \<noteq> 0 then
                          (if r > 0 then - EIO else r,
                           printk ''soft offline: %#lx: migration failed %d, type %lx''
                             [Num (int pfn), Num r, Flags (flags (the_page s2 page'))] s2)
                        else (r, s2))
                 else
                   (ret,
                    printk ''soft offline: %#lx: isolation failed: %d, page count %d, type %lx''
                      [Num (int pfn), Num ret, Num (page_count env s1 page'),
                       Flags (flags (the_page s1 page'))] s1)) of
             (ret', s') \<Rightarrow> if ret' \<noteq> 0 then (ret', s') else soft_offline_done page' ret' s'))"

text \<open>From the second \<^verbatim>\<open>if (!PageLRU(page))\<close> to the end of the function.\<close>

definition soft_offline_lru :: "'h env \<Rightarrow> nat \<Rightarrow> nat \<Rightarrow> 'h kstate \<Rightarrow> int \<times> 'h kstate" where
  "soft_offline_lru env page' pfn s =
     (if \<not> PageFlag PG_lru page' s then
        (- EIO, printk ''soft_offline: %#lx: unknown non LRU page type %lx''
                  [Num (int pfn), Flags (flags (the_page s page'))] s)
      else
        let s1 = snd (extern env (Lock_page page') s);
            s2 = snd (extern env (Wait_on_page_writeback page') s1)
        in if PageFlag PG_hwpoison page' s2 then
             (let s3 = snd (extern env (Unlock_page page') s2);
                  s4 = put_page env page' s3
              in (- EBUSY, printk ''soft offline: %#lx page already poisoned'' [Num (int pfn)] s4))
           else
             (case extern env (Invalidate_inode_page page') s2 of
                (ret, s3) \<Rightarrow>
                  let s4 = snd (extern env (Unlock_page page') s3);
                      s5 = put_page env page' s4
                  in if ret = 1 then
                       soft_offline_done page' 0
                         (printk ''soft_offline: %#lx: invalidated'' [Num (int pfn)] s5)
                     else soft_offline_migrate env page' pfn s5))"

definition soft_offline_page__clone ::
  "'h env \<Rightarrow> nat \<Rightarrow> int \<Rightarrow> 'h kstate \<Rightarrow> (int \<times> 'h kstate) option" where
  "soft_offline_page__clone env page' flgs s =
     (let pfn = page'
      in case get_any_page env page' pfn flgs s of
           (ret, s1) \<Rightarrow>
             if ret < 0 then Some (ret, s1)
             else if ret = 0 then Some (soft_offline_done page' ret s1)
             else if \<not> PageFlag PG_lru page' s1 then
               (case shake_page__clone env page' 1 (put_page env page' s1) of
                  None \<Rightarrow> None
                | Some s2 \<Rightarrow>
                    (case get_any_page env page' pfn 0 s2 of
                       (ret2, s3) \<Rightarrow>
                         if ret2 < 0 then Some (ret2, s3)
                         else if ret2 = 0 then Some (soft_offline_done page' ret2 s3)
                         else Some (soft_offline_lru env page' pfn s3)))
             else Some (soft_offline_lru env page' pfn s1))"

section \<open>The notify list in memory\<close>







section \<open>Observations on traces\<close>

text \<open>
  What a list of events says about the notify list and the signals: the tasks killed by
  force (\<open>forced\<close>), the tasks sent the advisory signal (\<open>advised\<close>), the tasks
  for which a notify entry was made (\<open>entered\<close>: \<^verbatim>\<open>add_to_kill\<close> takes a
  task reference for each entry it links), the task references released
  (\<open>released\<close>) and the addresses given to \<^verbatim>\<open>kfree\<close> (\<open>freed\<close>), each in the
  order of the events.
\<close>

fun forced_of :: "event \<Rightarrow> task_struct list" where
  "forced_of (Call (Force_sig_SIGKILL t)) = [t]"
| "forced_of e = []"

fun advised_of :: "event \<Rightarrow> task_struct list" where
  "advised_of (Call (Send_sig_info_SIGBUS_AO t a n)) = [t]"
| "advised_of e = []"

fun entered_of :: "event \<Rightarrow> task_struct list" where
  "entered_of (Call (Get_task_struct t)) = [t]"
| "entered_of e = []"

fun released_of :: "event \<Rightarrow> task_struct list" where
  "released_of (Call (Put_task_struct t)) = [t]"
| "released_of e = []"

fun freed_of :: "event \<Rightarrow> int list" where
  "freed_of (Call (Kfree a)) = [a]"
| "freed_of e = []"

definition forced :: "event list \<Rightarrow> task_struct list" where
  "forced evs = concat (map forced_of evs)"

definition advised :: "event list \<Rightarrow> task_struct list" where
  "advised evs = concat (map advised_of evs)"

definition entered :: "event list \<Rightarrow> task_struct list" where
  "entered evs = concat (map entered_of evs)"

definition released :: "event list \<Rightarrow> task_struct list" where
  "released evs = concat (map released_of evs)"

definition freed :: "event list \<Rightarrow> int list" where
  "freed evs = concat (map freed_of evs)"

text \<open>
  The calls only the mapping collector makes (\<open>collected\<close>), and the relation between
  the collector's state before and after a step: entries are only added at the end of the
  list, each with one \<^verbatim>\<open>get_task_struct\<close>, and no signal is sent.
\<close>

fun collector_of :: "event \<Rightarrow> call list" where
  "collector_of (Call (Kmalloc_to_kill g)) = [Kmalloc_to_kill g]"
| "collector_of (Call Read_lock_tasklist) = [Read_lock_tasklist]"
| "collector_of (Call (Page_lock_anon_vma p)) = [Page_lock_anon_vma p]"
| "collector_of (Call (Spin_lock_i_mmap m)) = [Spin_lock_i_mmap m]"
| "collector_of (Call (Get_task_struct t)) = [Get_task_struct t]"
| "collector_of e = []"

definition collected :: "event list \<Rightarrow> call list" where
  "collected evs = concat (map collector_of evs)"

definition grows ::
  "to_kill list \<times> int \<times> 'h kstate \<Rightarrow> to_kill list \<times> int \<times> 'h kstate \<Rightarrow> bool" where
  "grows st st' =
     (\<exists>new evs. fst st' = fst st @ new
        \<and> trace (snd (snd st')) = trace (snd (snd st)) @ evs
        \<and> entered evs = map tsk new \<and> forced evs = [] \<and> advised evs = [])"

text \<open>
  The calls that evacuate a page's content (\<open>evacuations\<close>); the rule the ledger
  follows in soft offline (\<open>ledger_rule\<close>: it moves, by one, exactly when the result
  is 0, and then the page is marked poisoned).
\<close>

fun evacuation_of :: "event \<Rightarrow> call list" where
  "evacuation_of (Call (Invalidate_inode_page p)) = [Invalidate_inode_page p]"
| "evacuation_of (Call (Migrate_pages p)) = [Migrate_pages p]"
| "evacuation_of e = []"

definition evacuations :: "event list \<Rightarrow> call list" where
  "evacuations evs = concat (map evacuation_of evs)"

definition ledger_rule :: "nat \<Rightarrow> 'h kstate \<Rightarrow> int \<times> 'h kstate \<Rightarrow> bool" where
  "ledger_rule page' s r =
     (if fst r = 0 then
        mce_bad_pages (snd r) = mce_bad_pages s + 1 \<and> PageFlag PG_hwpoison page' (snd r)
      else mce_bad_pages (snd r) = mce_bad_pages s)"

section \<open>A small kernel for concrete runs\<close>

text \<open>
  A concrete memory and concrete collaborators, on which the engine can be run: a clean
  and a dirty file page on the LRU list (4, 5, 41), two dirty swap-cache pages (6, 7), a
  free buddy block of order 3 (8 to 15), two mapped anonymous pages (30 clean, 31 dirty),
  a reserved page (40); every other frame has count 0 and no flag.  \<open>sim_kernel\<close>
  isolates a page that is on the LRU list (taking a reference), invalidates a clean page
  (dropping the page cache's reference), migrates any page (the isolation's and the page
  cache's references go away), never succeeds in unmapping, and finds every page clean in
  \<^verbatim>\<open>page_mkclean\<close>.
\<close>

definition sim_page :: "nat \<Rightarrow> page" where
  "sim_page p =
     (if p = 4 then \<lparr>flags = {PG_lru}, count = 1, mapping = 500, index = 0\<rparr>
      else if p = 5 then \<lparr>flags = {PG_lru}, count = 2, mapping = 500, index = 1\<rparr>
      else if p = 6 then \<lparr>flags = {PG_swapcache, PG_dirty, PG_lru}, count = 2, mapping = 900, index = 0\<rparr>
      else if p = 7 then \<lparr>flags = {PG_swapcache, PG_dirty, PG_lru}, count = 3, mapping = 900, index = 0\<rparr>
      else if p = 8 then \<lparr>flags = {PG_buddy}, count = 0, mapping = 0, index = 0\<rparr>
      else if p = 30 then \<lparr>flags = {PG_lru, PG_swapbacked}, count = 2, mapping = 900, index = 0\<rparr>
      else if p = 31 then \<lparr>flags = {PG_lru, PG_swapbacked, PG_dirty}, count = 2, mapping = 900, index = 0\<rparr>
      else if p = 40 then \<lparr>flags = {PG_reserved}, count = 1, mapping = 0, index = 0\<rparr>
      else if p = 41 then \<lparr>flags = {PG_lru, PG_dirty}, count = 2, mapping = 500, index = 2\<rparr>
      else \<lparr>flags = {}, count = 0, mapping = 0, index = 0\<rparr>)"

definition bump :: "nat \<Rightarrow> int \<Rightarrow> unit world \<Rightarrow> unit world" where
  "bump p d w = w\<lparr>pages := (pages w)(p := (pages w p)\<lparr>count := count (pages w p) + d\<rparr>)\<rparr>"

definition unflag :: "nat \<Rightarrow> pageflag \<Rightarrow> unit world \<Rightarrow> unit world" where
  "unflag p f w = w\<lparr>pages := (pages w)(p := (pages w p)\<lparr>flags := flags (pages w p) - {f}\<rparr>)\<rparr>"

fun sim_kernel :: "call \<Rightarrow> unit world \<Rightarrow> int \<times> unit world" where
  "sim_kernel (Isolate_lru_page p) w =
     (if PG_lru \<in> flags (pages w p) then (0, bump p 1 (unflag p PG_lru w)) else (- 16, w))"
| "sim_kernel (Invalidate_inode_page p) w =
     (if PG_dirty \<in> flags (pages w p) then (0, w) else (1, bump p (- 1) w))"
| "sim_kernel (Migrate_pages p) w = (0, bump p (- 2) w)"
| "sim_kernel (Kmalloc_to_kill g) w = (4096, w)"
| "sim_kernel (Page_lock_anon_vma p) w = (77, w)"
| "sim_kernel (Try_to_unmap p ttu) w = (2, w)"
| "sim_kernel c w = (0, w)"

definition sim_task :: task_struct where
  "sim_task = \<lparr>pid = 42, comm = ''db'', mm = 1, task_flags = {PF_MCE_PROCESS, PF_MCE_EARLY}\<rparr>"

definition sim_env :: "unit env" where
  "sim_env =
     \<lparr>kernel = sim_kernel,
      compound_head = (\<lambda>w p. p),
      pfn_valid = (\<lambda>w p. p < 64),
      page_order = (\<lambda>w p. if p = 8 then 3 else 0),
      page_mapped = (\<lambda>w p. p = 5 \<or> p = 30 \<or> p = 31),
      page_mapcount = (\<lambda>w p. if p = 5 \<or> p = 30 \<or> p = 31 then 1 else 0),
      PageKsm = (\<lambda>w p. False),
      PageAnon = (\<lambda>w p. p = 30 \<or> p = 31),
      page_mapping = (\<lambda>w p. if p = 30 \<or> p = 31 then 0 else mapping (pages w p)),
      page_has_private = (\<lambda>w p. False),
      mapping_cap_writeback_dirty = (\<lambda>w m. True),
      has_error_remove_page = (\<lambda>w m. False),
      for_each_process = (\<lambda>w. [sim_task]),
      sysctl_memory_failure_early_kill = (\<lambda>w. 0),
      anon_vma_head = (\<lambda>w av. [\<lparr>vm_start = 65536, vm_mm = 1\<rparr>]),
      vma_prio_tree = (\<lambda>w m pgoff. [\<lparr>vm_start = 65536, vm_mm = 1\<rparr>]),
      page_mapped_in_vma = (\<lambda>w p vma. True),
      page_address_in_vma = (\<lambda>w p vma. 65536),
      MAX_ORDER = 4,
      PAGEFLAGS_EXTENDED = True,
      PAGE_CACHE_SHIFT_minus_PAGE_SHIFT = 0\<rparr>"

definition sim_state :: "unit kstate" where
  "sim_state = \<lparr>mem = \<lparr>pages = sim_page, hidden = ()\<rparr>, mce_bad_pages = 0, trace = []\<rparr>"


section \<open>Basic facts about the primitives\<close>

lemma mem_emit [simp]: "mem (emit e s) = mem s"
  by (simp add: emit_def)

lemma ledger_emit [simp]: "mce_bad_pages (emit e s) = mce_bad_pages s"
  by (simp add: emit_def)

lemma trace_emit [simp]: "trace (emit e s) = trace s @ [e]"
  by (simp add: emit_def)

lemma mem_printk [simp]: "mem (printk f a s) = mem s"
  by (simp add: printk_def)

lemma ledger_printk [simp]: "mce_bad_pages (printk f a s) = mce_bad_pages s"
  by (simp add: printk_def)

lemma trace_printk [simp]: "trace (printk f a s) = trace s @ [Printk f a]"
  by (simp add: printk_def)

lemma mem_notify [simp]: "mem (notify c s) = mem s"
  by (simp add: notify_def)

lemma ledger_notify [simp]: "mce_bad_pages (notify c s) = mce_bad_pages s"
  by (simp add: notify_def)

lemma trace_notify [simp]: "trace (notify c s) = trace s @ [Call c]"
  by (simp add: notify_def)

lemma the_page_emit [simp]: "the_page (emit e s) p = the_page s p"
  by (simp add: the_page_def)

lemma the_page_printk [simp]: "the_page (printk f a s) p = the_page s p"
  by (simp add: the_page_def)

lemma the_page_notify [simp]: "the_page (notify c s) p = the_page s p"
  by (simp add: the_page_def)

lemma trace_set_page [simp]: "trace (set_page p pg s) = trace s"
  by (simp add: set_page_def)

lemma ledger_set_page [simp]: "mce_bad_pages (set_page p pg s) = mce_bad_pages s"
  by (simp add: set_page_def)

lemma the_page_set_page [simp]: "the_page (set_page p pg s) q = (if q = p then pg else the_page s q)"
  by (simp add: set_page_def the_page_def)

lemma hidden_set_page [simp]: "hidden (mem (set_page p pg s)) = hidden (mem s)"
  by (simp add: set_page_def)

lemma trace_SetPageFlag [simp]: "trace (SetPageFlag f p s) = trace s"
  by (simp add: SetPageFlag_def)

lemma ledger_SetPageFlag [simp]: "mce_bad_pages (SetPageFlag f p s) = mce_bad_pages s"
  by (simp add: SetPageFlag_def)

lemma PageFlag_SetPageFlag [simp]: "PageFlag f p (SetPageFlag f p s)"
  by (simp add: PageFlag_def SetPageFlag_def)

lemma count_SetPageFlag [simp]: "count (the_page (SetPageFlag f p s) q) = count (the_page s q)"
  by (simp add: SetPageFlag_def)

lemma new_events_append [simp]: "trace s' = trace s @ es \<Longrightarrow> new_events s s' = es"
  by (simp add: new_events_def)

lemma PageFlag_emit [simp]: "PageFlag f p (emit e s) = PageFlag f p s"
  by (simp add: PageFlag_def)

lemma PageFlag_printk [simp]: "PageFlag f p (printk fmt a s) = PageFlag f p s"
  by (simp add: PageFlag_def)

lemma PageFlag_notify [simp]: "PageFlag f p (notify c s) = PageFlag f p s"
  by (simp add: PageFlag_def)

lemma is_free_buddy_fst:
  "fst (is_free_buddy_page__clone env p s) = (buddy_order env (mem s) p 0 < MAX_ORDER env)"
  by (simp add: is_free_buddy_page__clone_def Let_def)

lemma is_free_buddy_snd:
  "snd (is_free_buddy_page__clone env p s) =
     notify (Spin_unlock_irqrestore_zone p) (notify (Spin_lock_irqsave_zone p) s)"
  by (simp add: is_free_buddy_page__clone_def Let_def)

lemmas sim_defs = sim_env_def sim_state_def sim_page_def sim_task_def bump_def unflag_def

lemma sim_buddy_8: "buddy_order sim_env \<lparr>pages = sim_page, hidden = ()\<rparr> 8 0 = 0"
  by (simp add: buddy_order.simps [of _ _ _ 0] sim_defs)

lemma sim_buddy_20: "buddy_order sim_env \<lparr>pages = sim_page, hidden = ()\<rparr> 20 0 = 4"
  by (simp add: buddy_order.simps [of _ _ 20] sim_defs)

lemma page_count_printk [simp]: "page_count env (printk f a s) p = page_count env s p"
  by (simp add: page_count_def)

lemma mem_action_result [simp]: "mem (action_result pfn m r s) = mem s"
  by (simp add: action_result_def)

lemma page_count_action_result [simp]:
  "page_count env (action_result pfn m r s) p = page_count env s p"
  by (simp add: page_count_def the_page_def)

lemmas obs_defs = forced_def advised_def entered_def released_def freed_def

lemma trace_extern [simp]: "trace (snd (extern env c s)) = trace s @ [Call c]"
  by (simp add: extern_def split: prod.splits)

lemma ledger_extern [simp]: "mce_bad_pages (snd (extern env c s)) = mce_bad_pages s"
  by (simp add: extern_def split: prod.splits)

lemma extern_eqD:
  "extern env c s = (r, s') \<Longrightarrow>
     trace s' = trace s @ [Call c] \<and> mce_bad_pages s' = mce_bad_pages s
     \<and> r = fst (kernel env c (mem s)) \<and> mem s' = snd (kernel env c (mem s))"
  by (auto simp: extern_def split: prod.splits)

lemma kill_proc_ao_trace:
  "\<exists>evs. trace (snd (kill_proc_ao env t a trapno pfn s)) = trace s @ evs
         \<and> forced evs = [] \<and> advised evs = [t] \<and> entered evs = []
         \<and> released evs = [] \<and> freed evs = []"
  by (auto simp: kill_proc_ao_def Let_def obs_defs split: prod.splits dest!: extern_eqD)

lemma kill_procs_ao_trace:
  "\<exists>evs. trace (kill_procs_ao env tokill doit trapno fail pfn s) = trace s @ evs
         \<and> released evs = map tsk tokill \<and> freed evs = map tk_ptr tokill
         \<and> entered evs = []
         \<and> (doit = 0 \<longrightarrow> forced evs = [] \<and> advised evs = [])
         \<and> (doit \<noteq> 0 \<and> fail \<noteq> 0 \<longrightarrow> forced evs = map tsk tokill \<and> advised evs = [])"
proof (induction tokill arbitrary: s)
  case Nil
  then show ?case by (simp add: obs_defs)
next
  case (Cons tk nxt)
  define s1 where "s1 =
     (if doit \<noteq> 0 then
        (if fail \<noteq> 0 \<or> \<not> addr_valid tk then
           notify (Force_sig_SIGKILL (tsk tk))
             (printk ''MCE %#lx: forcibly killing %s:%d because of failure to unmap corrupted page''
                [Num (int pfn), Str (comm (tsk tk)), Num (pid (tsk tk))] s)
         else
           (case kill_proc_ao env (tsk tk) (addr tk) trapno pfn s of
              (r, s') \<Rightarrow>
                if r < 0 then
                  printk ''MCE %#lx: Cannot send advisory machine check signal to %s:%d''
                    [Num (int pfn), Str (comm (tsk tk)), Num (pid (tsk tk))] s'
                else s'))
      else s)"
  define s3 where "s3 = notify (Kfree (tk_ptr tk)) (notify (Put_task_struct (tsk tk)) s1)"
  have step: "kill_procs_ao env (tk # nxt) doit trapno fail pfn s =
                kill_procs_ao env nxt doit trapno fail pfn s3"
    by (simp add: s1_def s3_def Let_def)
  obtain e0 where e0: "trace (snd (kill_proc_ao env (tsk tk) (addr tk) trapno pfn s)) = trace s @ e0"
      "forced e0 = []" "entered e0 = []" "released e0 = []" "freed e0 = []"
    using kill_proc_ao_trace [of env "tsk tk" "addr tk" trapno pfn s] by blast
  have "\<exists>e1. trace s1 = trace s @ e1 \<and> released e1 = [] \<and> freed e1 = [] \<and> entered e1 = []
          \<and> (doit = 0 \<longrightarrow> forced e1 = [] \<and> advised e1 = [])
          \<and> (doit \<noteq> 0 \<and> fail \<noteq> 0 \<longrightarrow> forced e1 = [tsk tk] \<and> advised e1 = [])"
    using e0 by (auto simp: s1_def obs_defs split: prod.splits)
  then obtain e1 where e1: "trace s1 = trace s @ e1" "released e1 = []" "freed e1 = []"
      "entered e1 = []" "doit = 0 \<longrightarrow> forced e1 = [] \<and> advised e1 = []"
      "doit \<noteq> 0 \<and> fail \<noteq> 0 \<longrightarrow> forced e1 = [tsk tk] \<and> advised e1 = []"
    by blast
  from Cons.IH [of s3] obtain e2 where e2:
      "trace (kill_procs_ao env nxt doit trapno fail pfn s3) = trace s3 @ e2"
      "released e2 = map tsk nxt" "freed e2 = map tk_ptr nxt" "entered e2 = []"
      "doit = 0 \<longrightarrow> forced e2 = [] \<and> advised e2 = []"
      "doit \<noteq> 0 \<and> fail \<noteq> 0 \<longrightarrow> forced e2 = map tsk nxt \<and> advised e2 = []"
    by blast
  have tr: "trace (kill_procs_ao env (tk # nxt) doit trapno fail pfn s) =
        trace s @ (e1 @ [Call (Put_task_struct (tsk tk)), Call (Kfree (tk_ptr tk))] @ e2)"
  proof -
    have "trace s3 = trace s @ e1 @ [Call (Put_task_struct (tsk tk)), Call (Kfree (tk_ptr tk))]"
      by (simp add: s3_def e1(1))
    then show ?thesis
      unfolding step e2(1) by simp
  qed
  show ?case
    apply (rule exI [of _ "e1 @ [Call (Put_task_struct (tsk tk)), Call (Kfree (tk_ptr tk))] @ e2"])
    using e1 e2 tr by (simp add: obs_defs)
qed

section \<open>The events of the collector, the unmap loop and the kill step\<close>

lemma forced_simps [simp]:
  "forced [] = []" "forced (e # es) = forced_of e @ forced es"
  "forced (a @ b) = forced a @ forced b"
  by (simp_all add: forced_def)

lemma advised_simps [simp]:
  "advised [] = []" "advised (e # es) = advised_of e @ advised es"
  "advised (a @ b) = advised a @ advised b"
  by (simp_all add: advised_def)

lemma entered_simps [simp]:
  "entered [] = []" "entered (e # es) = entered_of e @ entered es"
  "entered (a @ b) = entered a @ entered b"
  by (simp_all add: entered_def)

lemma released_simps [simp]:
  "released [] = []" "released (e # es) = released_of e @ released es"
  "released (a @ b) = released a @ released b"
  by (simp_all add: released_def)

lemma freed_simps [simp]:
  "freed [] = []" "freed (e # es) = freed_of e @ freed es"
  "freed (a @ b) = freed a @ freed b"
  by (simp_all add: freed_def)

lemma collected_simps [simp]:
  "collected [] = []" "collected (e # es) = collector_of e @ collected es"
  "collected (a @ b) = collected a @ collected b"
  by (simp_all add: collected_def)

lemma growsI:
  assumes "fst st' = fst st @ new" and "trace (snd (snd st')) = trace (snd (snd st)) @ evs"
    and "entered evs = map tsk new" and "forced evs = []" and "advised evs = []"
  shows "grows st st'"
  unfolding grows_def using assms by blast

lemma growsE:
  assumes "grows st st'"
  obtains new evs where "fst st' = fst st @ new"
    and "trace (snd (snd st')) = trace (snd (snd st)) @ evs"
    and "entered evs = map tsk new" and "forced evs = []" and "advised evs = []"
  using assms unfolding grows_def by blast

lemma grows_refl: "grows st st"
  by (rule growsI [where new = "[]" and evs = "[]"]) simp_all

lemma grows_trans:
  assumes "grows a b" and "grows b c"
  shows "grows a c"
proof -
  from assms(1) obtain n1 e1 where 1: "fst b = fst a @ n1"
    "trace (snd (snd b)) = trace (snd (snd a)) @ e1"
    "entered e1 = map tsk n1" "forced e1 = []" "advised e1 = []"
    by (rule growsE)
  from assms(2) obtain n2 e2 where 2: "fst c = fst b @ n2"
    "trace (snd (snd c)) = trace (snd (snd b)) @ e2"
    "entered e2 = map tsk n2" "forced e2 = []" "advised e2 = []"
    by (rule growsE)
  show ?thesis
    by (rule growsI [where new = "n1 @ n2" and evs = "e1 @ e2"]) (simp_all add: 1 2)
qed

lemma add_to_kill_grows: "grows st (add_to_kill env t p vma st)"
proof (cases st)
  case (fields tokill tkc s)
  show ?thesis
    unfolding fields add_to_kill_def grows_def
    by (auto simp: Let_def split: prod.splits if_splits dest!: extern_eqD)
qed

lemma collect_anon_vmas_grows: "grows st (collect_anon_vmas env page t vmas st)"
proof (induction vmas arbitrary: st)
  case Nil
  show ?case by (simp add: grows_refl)
next
  case (Cons vma vmas)
  show ?case
    using Cons.IH grows_trans [OF add_to_kill_grows Cons.IH]
    by simp
qed

lemma collect_anon_tasks_grows: "grows st (collect_anon_tasks env page av ts st)"
proof (induction ts arbitrary: st)
  case Nil
  show ?case by (simp add: grows_refl)
next
  case (Cons t ts)
  show ?case
    using Cons.IH grows_trans [OF collect_anon_vmas_grows Cons.IH]
    by simp
qed

lemma collect_file_vmas_grows: "grows st (collect_file_vmas env page t vmas st)"
proof (induction vmas arbitrary: st)
  case Nil
  show ?case by (simp add: grows_refl)
next
  case (Cons vma vmas)
  show ?case
    using Cons.IH grows_trans [OF add_to_kill_grows Cons.IH]
    by simp
qed

lemma collect_file_tasks_grows: "grows st (collect_file_tasks env page m ts st)"
proof (induction ts arbitrary: st)
  case Nil
  show ?case by (simp add: grows_refl)
next
  case (Cons t ts)
  show ?case
    using Cons.IH grows_trans [OF collect_file_vmas_grows Cons.IH]
    by (simp add: Let_def)
qed

lemma grows_notify_before:
  assumes "grows (tokill, tkc, s1) st'" and "trace s1 = trace s @ e0"
    and "entered e0 = []" and "forced e0 = []" and "advised e0 = []"
  shows "grows (tokill, tkc', s) st'"
proof -
  from assms(1) obtain new evs where 1: "fst st' = tokill @ new"
    "trace (snd (snd st')) = trace s1 @ evs"
    "entered evs = map tsk new" "forced evs = []" "advised evs = []"
    by (rule growsE) simp
  show ?thesis
    by (rule growsI [where new = new and evs = "e0 @ evs"]) (simp_all add: 1 assms)
qed

lemma grows_notify_after:
  assumes "grows st (tokill', tkc', s1)" and "trace s2 = trace s1 @ e0"
    and "entered e0 = []" and "forced e0 = []" and "advised e0 = []"
  shows "grows st (tokill', tkc'', s2)"
proof -
  from assms(1) obtain new evs where 1: "tokill' = fst st @ new"
    "trace s1 = trace (snd (snd st)) @ evs"
    "entered evs = map tsk new" "forced evs = []" "advised evs = []"
    by (rule growsE) simp
  show ?thesis
    by (rule growsI [where new = new and evs = "evs @ e0"]) (simp_all add: 1 assms)
qed

lemma collect_procs_anon_grows: "grows (tokill, tkc, s) (collect_procs_anon env page tokill tkc s)"
proof -
  obtain av s2 where ex: "extern env (Page_lock_anon_vma page) (notify Read_lock_tasklist s) = (av, s2)"
    by (cases "extern env (Page_lock_anon_vma page) (notify Read_lock_tasklist s)")
  from extern_eqD [OF ex] have tr2:
    "trace s2 = trace s @ [Call Read_lock_tasklist, Call (Page_lock_anon_vma page)]"
    by simp
  show ?thesis
  proof (cases "av = 0")
    case True
    have "grows (tokill, tkc, s) (tokill, tkc, notify Read_unlock_tasklist s2)"
      by (rule grows_notify_after [OF grows_refl, where ?e0.0 = "[Call Read_lock_tasklist, Call (Page_lock_anon_vma page), Call Read_unlock_tasklist]"])
         (simp_all add: tr2)
    then show ?thesis
      by (simp add: collect_procs_anon_def Let_def ex True)
  next
    case False
    obtain tl tc s3 where loop:
      "collect_anon_tasks env page av (for_each_process env (mem s2)) (tokill, tkc, s2) = (tl, tc, s3)"
      by (cases "collect_anon_tasks env page av (for_each_process env (mem s2)) (tokill, tkc, s2)")
    have g1: "grows (tokill, tkc, s2) (tl, tc, s3)"
      using collect_anon_tasks_grows [of "(tokill, tkc, s2)" env page av "for_each_process env (mem s2)"]
      by (simp add: loop)
    have g2: "grows (tokill, tkc, s) (tl, tc, s3)"
      by (rule grows_notify_before [OF g1 tr2]) simp_all
    have "grows (tokill, tkc, s)
            (tl, tc, notify Read_unlock_tasklist (notify (Page_unlock_anon_vma av) s3))"
      by (rule grows_notify_after [OF g2, where ?e0.0 = "[Call (Page_unlock_anon_vma av), Call Read_unlock_tasklist]"])
         simp_all
    then show ?thesis
      by (simp add: collect_procs_anon_def Let_def ex False loop)
  qed
qed

lemma collect_procs_file_grows: "grows (tokill, tkc, s) (collect_procs_file env page tokill tkc s)"
proof -
  define m where "m = mapping (the_page s page)"
  define s2 where "s2 = notify (Spin_lock_i_mmap m) (notify Read_lock_tasklist s)"
  have tr2: "trace s2 = trace s @ [Call Read_lock_tasklist, Call (Spin_lock_i_mmap m)]"
    by (simp add: s2_def)
  obtain tl tc s3 where loop:
    "collect_file_tasks env page m (for_each_process env (mem s2)) (tokill, tkc, s2) = (tl, tc, s3)"
    by (cases "collect_file_tasks env page m (for_each_process env (mem s2)) (tokill, tkc, s2)")
  have g1: "grows (tokill, tkc, s2) (tl, tc, s3)"
    using collect_file_tasks_grows [of "(tokill, tkc, s2)" env page m "for_each_process env (mem s2)"]
    by (simp add: loop)
  have g2: "grows (tokill, tkc, s) (tl, tc, s3)"
    by (rule grows_notify_before [OF g1 tr2]) simp_all
  have "grows (tokill, tkc, s)
          (tl, tc, notify Read_unlock_tasklist (notify (Spin_unlock_i_mmap m) s3))"
    by (rule grows_notify_after [OF g2, where ?e0.0 = "[Call (Spin_unlock_i_mmap m), Call Read_unlock_tasklist]"])
       simp_all
  then show ?thesis
    using loop by (simp add: collect_procs_file_def Let_def m_def s2_def)
qed

lemma collect_procs_trace:
  "\<exists>new evs. fst (collect_procs env page tokill s) = tokill @ new
       \<and> trace (snd (collect_procs env page tokill s)) = trace s @ evs
       \<and> entered evs = map tsk new \<and> forced evs = [] \<and> advised evs = []"
proof (cases "mapping (the_page s page) = 0")
  case True
  then show ?thesis by (simp add: collect_procs_def)
next
  case False
  obtain tk s1 where ex: "extern env (Kmalloc_to_kill GFP_NOIO) s = (tk, s1)"
    by (cases "extern env (Kmalloc_to_kill GFP_NOIO) s")
  from extern_eqD [OF ex] have tr1: "trace s1 = trace s @ [Call (Kmalloc_to_kill GFP_NOIO)]"
    by simp
  show ?thesis
  proof (cases "tk = 0")
    case True
    show ?thesis
      apply (rule exI [of _ "[]"])
      apply (rule exI [of _ "[Call (Kmalloc_to_kill GFP_NOIO)]"])
      using \<open>mapping (the_page s page) \<noteq> 0\<close> True
      apply (simp add: collect_procs_def ex tr1)
      done
  next
    case nz: False
    define st where "st =
       (if PageAnon env (mem s1) page then collect_procs_anon env page tokill tk s1
        else collect_procs_file env page tokill tk s1)"
    obtain tl tc s2 where st: "st = (tl, tc, s2)" by (cases st)
    have "grows (tokill, tk, s1) st"
      by (simp add: st_def collect_procs_anon_grows collect_procs_file_grows)
    then have "grows (tokill, tk, s) (tl, tc, s2)"
      unfolding st by (rule grows_notify_before [OF _ tr1]) simp_all
    then have "grows (tokill, tk, s) (tl, tc, notify (Kfree tc) s2)"
      by (rule grows_notify_after [where ?e0.0 = "[Call (Kfree tc)]"]) simp_all
    moreover have "collect_procs env page tokill s = (tl, notify (Kfree tc) s2)"
      using \<open>mapping (the_page s page) \<noteq> 0\<close> nz st
      by (simp add: collect_procs_def ex st_def)
    ultimately show ?thesis
      by (simp add: grows_def)
  qed
qed

lemma unmap_tries_trace:
  "\<exists>evs. trace (snd (unmap_tries env p pfn ttu n ret s)) = trace s @ evs
         \<and> forced evs = [] \<and> advised evs = [] \<and> entered evs = [] \<and> collected evs = []"
proof (induction n arbitrary: ret s)
  case 0
  show ?case by simp
next
  case (Suc n)
  obtain r s1 where ex: "extern env (Try_to_unmap p ttu) s = (r, s1)"
    by (cases "extern env (Try_to_unmap p ttu) s")
  from extern_eqD [OF ex] have tr1: "trace s1 = trace s @ [Call (Try_to_unmap p ttu)]"
    by simp
  show ?case
  proof (cases "r = SWAP_SUCCESS")
    case True
    then show ?thesis by (simp add: ex tr1)
  next
    case False
    define s2 where "s2 = printk ''MCE %#lx: try_to_unmap retry needed %d'' [Num (int pfn), Num r] s1"
    from Suc.IH [of r s2] obtain evs where
      evs: "trace (snd (unmap_tries env p pfn ttu n r s2)) = trace s2 @ evs"
        "forced evs = []" "advised evs = []" "entered evs = []" "collected evs = []"
      by blast
    have "trace (snd (unmap_tries env p pfn ttu (Suc n) ret s)) =
            trace s @ ([Call (Try_to_unmap p ttu), Printk ''MCE %#lx: try_to_unmap retry needed %d'' [Num (int pfn), Num r]] @ evs)"
      using False by (simp add: ex evs(1) [unfolded s2_def] tr1 s2_def)
    then show ?thesis
      using evs
      by (intro exI [of _ "[Call (Try_to_unmap p ttu), Printk ''MCE %#lx: try_to_unmap retry needed %d'' [Num (int pfn), Num r]] @ evs"]) simp
  qed
qed

lemma kill_procs_ao_mem:
  "doit = 0 \<or> fail \<noteq> 0 \<Longrightarrow> mem (kill_procs_ao env tokill doit trapno fail pfn s) = mem s"
  by (induction tokill arbitrary: s) (auto simp: Let_def)

text \<open>What precedes the kill step in \<^verbatim>\<open>hwpoison_user_mappings\<close>, when it is reached.\<close>

lemma hum_decompose:
  assumes "\<not> PageFlag PG_reserved p s" and "\<not> PageFlag PG_slab p s"
    and "page_mapped env (mem s) p" and "\<not> PageCompound env p s" and "\<not> PageKsm env (mem s) p"
  shows "\<exists>tokill s5 ret e.
      hwpoison_user_mappings env p pfn trapno s =
        (ret, kill_procs_ao env tokill (if PageFlag PG_dirty p s5 then 1 else 0) trapno
                (if ret \<noteq> SWAP_SUCCESS then 1 else 0) pfn s5)
      \<and> trace s5 = trace s @ e \<and> forced e = [] \<and> advised e = [] \<and> entered e = map tsk tokill
      \<and> (\<not> PageFlag PG_dirty p s \<and> page_mapping env (mem s) p \<noteq> 0
           \<and> mapping_cap_writeback_dirty env (mem s) (page_mapping env (mem s) p)
           \<and> fst (kernel env (Page_mkclean p) (mem s)) = 0
          \<longrightarrow> tokill = [] \<and> collected e = [])"
proof -
  define ttu0 where "ttu0 = {TTU_UNMAP, TTU_IGNORE_MLOCK, TTU_IGNORE_ACCESS}"
  define a1 where "a1 =
     (if PageFlag PG_swapcache p s then
        (insert TTU_IGNORE_HWPOISON ttu0,
         printk ''MCE %#lx: keeping poisoned page in swap cache'' [Num (int pfn)] s)
      else (ttu0, s))"
  define ttu1 where "ttu1 = fst a1"
  define s1 where "s1 = snd a1"
  have mem1: "mem s1 = mem s" by (simp add: s1_def a1_def)
  obtain e1 where e1: "trace s1 = trace s @ e1" "forced e1 = []" "advised e1 = []"
      "entered e1 = []" "collected e1 = []"
  proof (cases "PageFlag PG_swapcache p s")
    case True
    show ?thesis
      by (rule that [of "[Printk ''MCE %#lx: keeping poisoned page in swap cache'' [Num (int pfn)]]"])
         (simp_all add: s1_def a1_def True)
  next
    case False
    show ?thesis by (rule that [of "[]"]) (simp_all add: s1_def a1_def False)
  qed
  define m where "m = page_mapping env (mem s1) p"
  define cond where "cond = (\<not> PageFlag PG_dirty p s1 \<and> m \<noteq> 0 \<and> mapping_cap_writeback_dirty env (mem s1) m)"
  define a2 where "a2 =
     (if cond then
        (case extern env (Page_mkclean p) s1 of
           (r, s') \<Rightarrow>
             if r \<noteq> 0 then (1 :: int, ttu1, SetPageFlag PG_dirty p s')
             else
               (0, insert TTU_IGNORE_HWPOISON ttu1,
                printk ''MCE %#lx: corrupted page was clean: dropped without side effects''
                  [Num (int pfn)] s'))
      else (1, ttu1, s1))"
  define kill where "kill = fst a2"
  define ttu2 where "ttu2 = fst (snd a2)"
  define s2 where "s2 = snd (snd a2)"
  obtain e2 where e2: "trace s2 = trace s1 @ e2" "forced e2 = []" "advised e2 = []"
      "entered e2 = []" "collected e2 = []"
  proof (cases cond)
    case False
    show ?thesis by (rule that [of "[]"]) (simp_all add: s2_def a2_def False)
  next
    case True
    obtain r s' where ex: "extern env (Page_mkclean p) s1 = (r, s')"
      by (cases "extern env (Page_mkclean p) s1")
    from extern_eqD [OF ex] have tr: "trace s' = trace s1 @ [Call (Page_mkclean p)]" by simp
    show ?thesis
    proof (cases "r = 0")
      case False
      show ?thesis
        by (rule that [of "[Call (Page_mkclean p)]"])
           (simp_all add: s2_def a2_def True ex False tr)
    next
      case r0: True
      show ?thesis
        by (rule that [of "[Call (Page_mkclean p),
              Printk ''MCE %#lx: corrupted page was clean: dropped without side effects'' [Num (int pfn)]]"])
           (simp_all add: s2_def a2_def True ex r0 tr)
    qed
  qed
  have clean: "kill = 0" if "\<not> PageFlag PG_dirty p s" "page_mapping env (mem s) p \<noteq> 0"
      "mapping_cap_writeback_dirty env (mem s) (page_mapping env (mem s) p)"
      "fst (kernel env (Page_mkclean p) (mem s)) = 0"
  proof -
    have c: cond using that by (simp add: cond_def m_def mem1 PageFlag_def the_page_def)
    obtain r s' where ex: "extern env (Page_mkclean p) s1 = (r, s')"
      by (cases "extern env (Page_mkclean p) s1")
    from extern_eqD [OF ex] that(4) have "r = 0" by (simp add: mem1)
    then show ?thesis by (simp add: kill_def a2_def c ex)
  qed
  define a3 where "a3 = (if kill \<noteq> 0 then collect_procs env p [] s2 else ([], s2))"
  define tokill where "tokill = fst a3"
  define s3 where "s3 = snd a3"
  obtain e3 where e3: "trace s3 = trace s2 @ e3" "forced e3 = []" "advised e3 = []"
      "entered e3 = map tsk tokill" "kill = 0 \<longrightarrow> tokill = [] \<and> collected e3 = []"
  proof (cases "kill = 0")
    case True
    show ?thesis by (rule that [of "[]"]) (simp_all add: s3_def a3_def tokill_def True)
  next
    case False
    from collect_procs_trace [of env p "[]" s2] obtain new evs where
      "fst (collect_procs env p [] s2) = [] @ new"
      "trace (snd (collect_procs env p [] s2)) = trace s2 @ evs"
      "entered evs = map tsk new" "forced evs = []" "advised evs = []"
      by blast
    then show ?thesis
      by (intro that [of evs]) (simp_all add: s3_def a3_def tokill_def False)
  qed
  define a4 where "a4 = unmap_tries env p pfn ttu2 N_UNMAP_TRIES 0 s3"
  define ret where "ret = fst a4"
  define s4 where "s4 = snd a4"
  from unmap_tries_trace [of env p pfn ttu2 N_UNMAP_TRIES 0 s3] obtain e4 where
    e4: "trace s4 = trace s3 @ e4" "forced e4 = []" "advised e4 = []" "entered e4 = []"
      "collected e4 = []"
    unfolding s4_def a4_def by blast
  define s5 where "s5 =
     (if ret \<noteq> SWAP_SUCCESS then
        printk ''MCE %#lx: failed to unmap page (mapcount=%d)''
          [Num (int pfn), Num (page_mapcount env (mem s4) p)] s4
      else s4)"
  obtain e5 where e5: "trace s5 = trace s4 @ e5" "forced e5 = []" "advised e5 = []"
      "entered e5 = []" "collected e5 = []"
  proof (cases "ret \<noteq> SWAP_SUCCESS")
    case True
    show ?thesis
      by (rule that [of "[Printk ''MCE %#lx: failed to unmap page (mapcount=%d)''
             [Num (int pfn), Num (page_mapcount env (mem s4) p)]]"])
         (simp_all add: s5_def True)
  next
    case False
    show ?thesis by (rule that [of "[]"]) (simp_all add: s5_def False)
  qed
  have run: "hwpoison_user_mappings env p pfn trapno s =
      (ret, kill_procs_ao env tokill (if PageFlag PG_dirty p s5 then 1 else 0) trapno
              (if ret \<noteq> SWAP_SUCCESS then 1 else 0) pfn s5)"
    unfolding hwpoison_user_mappings_def s5_def s4_def ret_def a4_def s3_def tokill_def a3_def
      s2_def ttu2_def kill_def a2_def cond_def m_def s1_def ttu1_def a1_def ttu0_def
    apply (simp only: assms simp_thms if_False)
    apply (simp only: Let_def case_prod_beta)
    done
  have tr: "trace s5 = trace s @ (e1 @ e2 @ e3 @ e4 @ e5)"
    by (simp add: e1 e2 e3 e4 e5)
  show ?thesis
    apply (rule exI [of _ tokill], rule exI [of _ s5], rule exI [of _ ret])
    apply (rule exI [of _ "e1 @ e2 @ e3 @ e4 @ e5"])
    using run tr e1 e2 e3 e4 e5 clean by simp
qed

lemma N_UNMAP_TRIES_Suc: "N_UNMAP_TRIES = Suc (Suc (Suc (Suc (Suc 0))))"
  by (simp add: N_UNMAP_TRIES_def eval_nat_numeral)

lemmas run_defs = hwpoison_user_mappings_def PageCompound_def PageFlag_def
  collect_procs_def collect_procs_anon_def collect_procs_file_def add_to_kill_def
  task_early_kill_def kill_proc_ao_def
  extern_def notify_def printk_def emit_def the_page_def set_page_def SetPageFlag_def
  Let_def EFAULT_def SWAP_SUCCESS_def SWAP_FAIL_def N_UNMAP_TRIES_Suc
  new_events_def






section \<open>The ledger and the reference count in soft offline\<close>

lemma ledger_put_page [simp]: "mce_bad_pages (put_page env p s) = mce_bad_pages s"
  by (simp add: put_page_def Let_def)

lemma ledger_get_page_unless_zero [simp]:
  "mce_bad_pages (snd (get_page_unless_zero p s)) = mce_bad_pages s"
  by (simp add: get_page_unless_zero_def)

lemma ledger_is_free_buddy [simp]:
  "mce_bad_pages (snd (is_free_buddy_page__clone env p s)) = mce_bad_pages s"
  by (simp add: is_free_buddy_snd)

lemma ledger_get_any_page [simp]:
  "mce_bad_pages (snd (get_any_page env p pfn flgs s)) = mce_bad_pages s"
  by (simp add: get_any_page_def Let_def case_prod_beta)

lemma shrink_slab_loop_keeps:
  assumes "shrink_slab_loop env p s = Some s'"
    and "\<And>s. f (snd (extern env Shrink_slab s)) = f s"
  shows "f s' = f s"
proof -
  have "env = env \<longrightarrow> f s' = f s"
  proof (rule shrink_slab_loop.raw_induct
      [where P = "\<lambda>e q s s'. e = env \<longrightarrow> f s' = f s", OF _ assms(1)])
  fix loop e q s s'
  assume IH: "\<And>e q s s'. loop e q s = Some s' \<Longrightarrow> e = env \<longrightarrow> f s' = f s"
    and step: "(case extern e Shrink_slab s of
                  (nr, s1) \<Rightarrow>
                    if page_count e s1 q = 0 then Some s1
                    else if 10 < nr then loop e q s1 else Some s1) = Some s'"
  show "e = env \<longrightarrow> f s' = f s"
  proof
    assume e: "e = env"
    obtain nr s1 where ex: "extern env Shrink_slab s = (nr, s1)"
      by (cases "extern env Shrink_slab s")
    have f1: "f s1 = f s"
      using assms(2) [of s] by (simp add: ex)
    from step show "f s' = f s"
      using IH [of env q s1 s'] f1
      by (auto simp: e ex split: if_splits)
  qed
  qed
  then show ?thesis by simp
qed

lemma ledger_shrink_slab_loop:
  "shrink_slab_loop env p s = Some s' \<Longrightarrow> mce_bad_pages s' = mce_bad_pages s"
  by (erule shrink_slab_loop_keeps) simp

lemma ledger_shake_page:
  "shake_page__clone env p access s = Some s' \<Longrightarrow> mce_bad_pages s' = mce_bad_pages s"
  by (auto simp: shake_page__clone_def shake_slab_def Let_def case_prod_beta
        split: if_splits dest!: ledger_shrink_slab_loop)

lemma soft_offline_done_ledger:
  "fst (soft_offline_done page' r s) = r
   \<and> mce_bad_pages (snd (soft_offline_done page' r s)) = mce_bad_pages s + 1
   \<and> PageFlag PG_hwpoison page' (snd (soft_offline_done page' r s))"
  by (simp add: soft_offline_done_def atomic_long_add_def SetPageFlag_def PageFlag_def)

lemma evacuations_simps [simp]:
  "evacuations [] = []" "evacuations (e # es) = evacuation_of e @ evacuations es"
  "evacuations (a @ b) = evacuations a @ evacuations b"
  by (simp_all add: evacuations_def)

lemma ledger_rule_done: "ledger_rule page' s (soft_offline_done page' 0 s)"
  by (simp add: ledger_rule_def soft_offline_done_ledger)

lemma ledger_rule_shift:
  "ledger_rule page' s1 r \<Longrightarrow> mce_bad_pages s1 = mce_bad_pages s \<Longrightarrow> ledger_rule page' s r"
  by (simp add: ledger_rule_def)

lemma ledger_rule_fail:
  "ret \<noteq> 0 \<Longrightarrow> mce_bad_pages s1 = mce_bad_pages s \<Longrightarrow> ledger_rule page' s (ret, s1)"
  by (simp add: ledger_rule_def)

lemma soft_offline_migrate_ledger: "ledger_rule page' s (soft_offline_migrate env page' pfn s)"
proof -
  obtain ret s1 where ex1: "extern env (Isolate_lru_page page') s = (ret, s1)"
    by (cases "extern env (Isolate_lru_page page') s")
  from extern_eqD [OF ex1] have l1: "mce_bad_pages s1 = mce_bad_pages s" by simp
  obtain r s2 where ex2: "extern env (Migrate_pages page') s1 = (r, s2)"
    by (cases "extern env (Migrate_pages page') s1")
  from extern_eqD [OF ex2] have l2: "mce_bad_pages s2 = mce_bad_pages s" by (simp add: l1)
  show ?thesis
    using l1 l2
    by (simp add: soft_offline_migrate_def ex1 ex2 ledger_rule_def soft_offline_done_ledger EIO_def)
qed

lemma soft_offline_lru_ledger: "ledger_rule page' s (soft_offline_lru env page' pfn s)"
proof (cases "PageFlag PG_lru page' s")
  case False
  then show ?thesis
    by (simp add: soft_offline_lru_def ledger_rule_def EIO_def)
next
  case True
  define s2 where "s2 = snd (extern env (Wait_on_page_writeback page') (snd (extern env (Lock_page page') s)))"
  have l2: "mce_bad_pages s2 = mce_bad_pages s" by (simp add: s2_def)
  show ?thesis
  proof (cases "PageFlag PG_hwpoison page' s2")
    case p: True
    show ?thesis
      using True p l2
      by (simp add: soft_offline_lru_def Let_def s2_def [symmetric] ledger_rule_def EBUSY_def)
  next
    case np: False
    obtain ret s3 where ex: "extern env (Invalidate_inode_page page') s2 = (ret, s3)"
      by (cases "extern env (Invalidate_inode_page page') s2")
    from extern_eqD [OF ex] have l3: "mce_bad_pages s3 = mce_bad_pages s" by (simp add: l2)
    define s5 where "s5 = put_page env page' (snd (extern env (Unlock_page page') s3))"
    have l5: "mce_bad_pages s5 = mce_bad_pages s" by (simp add: s5_def l3)
    have run: "soft_offline_lru env page' pfn s =
       (if ret = 1 then
          soft_offline_done page' 0 (printk ''soft_offline: %#lx: invalidated'' [Num (int pfn)] s5)
        else soft_offline_migrate env page' pfn s5)"
      using True np
      by (simp add: soft_offline_lru_def Let_def s2_def [symmetric] ex s5_def [symmetric])
    show ?thesis
    proof (cases "ret = 1")
      case True
      have "ledger_rule page' (printk ''soft_offline: %#lx: invalidated'' [Num (int pfn)] s5)
              (soft_offline_lru env page' pfn s)"
        by (simp add: run True ledger_rule_done)
      then show ?thesis by (rule ledger_rule_shift) (simp add: l5)
    next
      case False
      have "ledger_rule page' s5 (soft_offline_lru env page' pfn s)"
        by (simp add: run False soft_offline_migrate_ledger)
      then show ?thesis by (rule ledger_rule_shift) (rule l5)
    qed
  qed
qed

lemma soft_offline_ledger:
  assumes "soft_offline_page__clone env page' flgs s = Some r"
  shows "ledger_rule page' s r"
proof -
  obtain ret s1 where g1: "get_any_page env page' page' flgs s = (ret, s1)"
    by (cases "get_any_page env page' page' flgs s")
  have l1: "mce_bad_pages s1 = mce_bad_pages s"
    using ledger_get_any_page [of env page' page' flgs s] by (simp add: g1)
  consider (neg) "ret < 0" | (zero) "ret = 0" | (lru) "ret > 0" "PageFlag PG_lru page' s1"
    | (shake) "ret > 0" "\<not> PageFlag PG_lru page' s1"
    by linarith
  then show ?thesis
  proof cases
    case neg
    then have "r = (ret, s1)" using assms by (simp add: soft_offline_page__clone_def g1)
    then show ?thesis using neg l1 by (simp add: ledger_rule_fail)
  next
    case zero
    then have "r = soft_offline_done page' 0 s1"
      using assms by (simp add: soft_offline_page__clone_def g1)
    then show ?thesis using ledger_rule_shift [OF ledger_rule_done l1] by simp
  next
    case lru
    then have "r = soft_offline_lru env page' page' s1"
      using assms by (simp add: soft_offline_page__clone_def g1)
    then show ?thesis using ledger_rule_shift [OF soft_offline_lru_ledger l1] by simp
  next
    case shake
    from shake assms obtain s2 where
      sh: "shake_page__clone env page' 1 (put_page env page' s1) = Some s2"
      by (auto simp: soft_offline_page__clone_def g1 split: option.splits)
    have l2: "mce_bad_pages s2 = mce_bad_pages s"
      using ledger_shake_page [OF sh] by (simp add: l1)
    obtain ret2 s3 where g2: "get_any_page env page' page' 0 s2 = (ret2, s3)"
      by (cases "get_any_page env page' page' 0 s2")
    have l3: "mce_bad_pages s3 = mce_bad_pages s"
      using ledger_get_any_page [of env page' page' 0 s2] by (simp add: g2 l2)
    have r: "r = (if ret2 < 0 then (ret2, s3)
                  else if ret2 = 0 then soft_offline_done page' ret2 s3
                  else soft_offline_lru env page' page' s3)"
      using assms shake
      by (auto simp: soft_offline_page__clone_def g1 sh g2 split: if_splits)
    show ?thesis
      using ledger_rule_shift [OF ledger_rule_done l3, of page']
        ledger_rule_shift [OF soft_offline_lru_ledger l3, of page' env page']
        ledger_rule_fail [of ret2 s3 s page'] l3
      by (auto simp: r)
  qed
qed

lemma get_any_page_free:
  assumes "flgs AND MF_COUNT_INCREASED = 0"
    and "count (the_page s (compound_head env (mem s) p)) = 0"
    and "buddy_order env (mem s) p 0 < MAX_ORDER env"
  shows "get_any_page env p pfn flgs s =
     (0, notify Unlock_system_sleep (notify (Unset_migratetype_isolate p)
           (SetPageFlag PG_hwpoison p
              (printk ''get_any_page: %#lx free buddy page'' [Num (int pfn)]
                 (notify (Spin_unlock_irqrestore_zone p) (notify (Spin_lock_irqsave_zone p)
                    (notify (Set_migratetype_isolate p) (notify Lock_system_sleep s))))))))"
  using assms
  by (simp add: get_any_page_def get_page_unless_zero_def is_free_buddy_page__clone_def Let_def)

lemmas offline_defs = soft_offline_page__clone_def soft_offline_lru_def soft_offline_migrate_def
  soft_offline_done_def get_any_page_def get_page_unless_zero_def is_free_buddy_page__clone_def
  put_page_def atomic_long_add_def SetPageFlag_def PageFlag_def set_page_def the_page_def
  extern_def notify_def printk_def emit_def Let_def MF_COUNT_INCREASED_def EIO_def EBUSY_def
  new_events_def

text \<open>Runs that return: the loop when a round of shrinking reports at most 10, and soft
  offline whenever it does not have to shake the page.\<close>

lemma shrink_slab_loop_returns:
  assumes "fst (kernel env Shrink_slab (mem s)) \<le> 10"
  shows "shrink_slab_loop env p s = Some (snd (extern env Shrink_slab s))"
proof -
  obtain nr s1 where ex: "extern env Shrink_slab s = (nr, s1)"
    by (cases "extern env Shrink_slab s")
  from extern_eqD [OF ex] assms have "nr \<le> 10" by simp
  then show ?thesis
    by (subst shrink_slab_loop.simps) (simp add: ex)
qed

lemma soft_offline_returns:
  assumes "fst (get_any_page env page' page' flgs s) \<le> 0
           \<or> PageFlag PG_lru page' (snd (get_any_page env page' page' flgs s))"
  shows "soft_offline_page__clone env page' flgs s \<noteq> None"
  using assms
  by (auto simp: soft_offline_page__clone_def split: prod.splits)

section \<open>Properties of quarantine acquisition\<close>

text \<open>
  C9: called with the reference-already-held flag (\<^verbatim>\<open>MF_COUNT_INCREASED\<close>),
  \<^verbatim>\<open>get_any_page\<close> returns 1 at once and the state is the one it was given: no
  lock is taken, no region isolated, no poisoned bit set, no reference count changed and
  no event added, for every page, environment and state.
\<close>

theorem get_any_page_count_increased:
  assumes "flgs AND MF_COUNT_INCREASED \<noteq> 0"
  shows "get_any_page env p pfn flgs s = (1, s)"
  using assms by (simp add: get_any_page_def)

theorem get_any_page_count_increased_witness:
  "(1 :: int) AND MF_COUNT_INCREASED \<noteq> 0 \<and> get_any_page sim_env 4 4 1 sim_state = (1, sim_state)"
  using get_any_page_count_increased [where flgs = 1 and env = sim_env and p = 4 and pfn = 4 and s = sim_state]
  by (simp add: MF_COUNT_INCREASED_def)

text \<open>
  C3: without the flag, \<^verbatim>\<open>get_any_page\<close> has three results, decided by the count
  of the compound head and by the free-page detector.  Count zero and page found free:
  the poisoned bit is set and the result is 0.  Count zero and page not found free:
  \<open>- EIO\<close>, the memory untouched.  Count not zero: 1, with the count raised by one.
  In each case the events are: the suspend lock taken, the region isolated, events that
  touch neither, the isolation undone, the lock released.
\<close>

theorem get_any_page_results:
  assumes "flgs AND MF_COUNT_INCREASED = 0"
  shows "case get_any_page env p pfn flgs s of (ret, s') \<Rightarrow>
     (let h = compound_head env (mem s) p;
          free = (buddy_order env (mem s) p 0 < MAX_ORDER env)
      in (count (the_page s h) = 0 \<and> free \<longrightarrow>
            ret = 0 \<and> PageFlag PG_hwpoison p s' \<and> count (the_page s' h) = 0)
       \<and> (count (the_page s h) = 0 \<and> \<not> free \<longrightarrow> ret = - EIO \<and> mem s' = mem s)
       \<and> (count (the_page s h) \<noteq> 0 \<longrightarrow>
            ret = 1 \<and> count (the_page s' h) = count (the_page s h) + 1)
       \<and> (\<exists>mid. new_events s s' =
              [Call Lock_system_sleep, Call (Set_migratetype_isolate p)] @ mid @
              [Call (Unset_migratetype_isolate p), Call Unlock_system_sleep]
            \<and> set mid \<inter> {Call Lock_system_sleep, Call Unlock_system_sleep,
                  Call (Set_migratetype_isolate p), Call (Unset_migratetype_isolate p)} = {}))"
  using assms
  apply (simp add: get_any_page_def get_page_unless_zero_def Let_def split: prod.splits)
  apply (simp add: is_free_buddy_page__clone_def Let_def)
  apply (auto simp: new_events_def)
  done

theorem get_any_page_results_witness:
  "(0 :: int) AND MF_COUNT_INCREASED = 0
   \<and> count (the_page sim_state 8) = 0
   \<and> buddy_order sim_env (mem sim_state) 8 0 < MAX_ORDER sim_env
   \<and> fst (get_any_page sim_env 8 8 0 sim_state) = 0
   \<and> PageFlag PG_hwpoison 8 (snd (get_any_page sim_env 8 8 0 sim_state))
   \<and> count (the_page sim_state 20) = 0
   \<and> \<not> buddy_order sim_env (mem sim_state) 20 0 < MAX_ORDER sim_env
   \<and> fst (get_any_page sim_env 20 20 0 sim_state) = - EIO
   \<and> count (the_page sim_state 4) = 1
   \<and> fst (get_any_page sim_env 4 4 0 sim_state) = 1
   \<and> count (the_page (snd (get_any_page sim_env 4 4 0 sim_state)) 4) = 2"
  using get_any_page_results [where flgs = 0 and env = sim_env and p = 8 and pfn = 8 and s = sim_state]
        get_any_page_results [where flgs = 0 and env = sim_env and p = 20 and pfn = 20 and s = sim_state]
        get_any_page_results [where flgs = 0 and env = sim_env and p = 4 and pfn = 4 and s = sim_state]
        sim_buddy_8 sim_buddy_20
  by (simp add: sim_defs the_page_def split: prod.splits)

section \<open>Properties of unpoison\<close>

text \<open>
  C7: \<^verbatim>\<open>unpoison_memory__clone\<close> on a valid frame whose page is not marked
  poisoned returns 0 and changes nothing: the memory (so the poisoned bit and the
  reference count of every page) and the ledger are as before; the only event is the
  \<^verbatim>\<open>pr_debug\<close> line.
\<close>

theorem unpoison_not_poisoned:
  assumes "pfn_valid env (mem s) pfn" and "\<not> PageFlag PG_hwpoison pfn s"
  shows "fst (unpoison_memory__clone env pfn s) = 0
       \<and> mem (snd (unpoison_memory__clone env pfn s)) = mem s
       \<and> mce_bad_pages (snd (unpoison_memory__clone env pfn s)) = mce_bad_pages s
       \<and> new_events s (snd (unpoison_memory__clone env pfn s)) =
           [Printk ''MCE: Page was already unpoisoned %#lx'' [Num (int pfn)]]"
  using assms by (simp add: unpoison_memory__clone_def Let_def)

theorem unpoison_not_poisoned_witness:
  "pfn_valid sim_env (mem sim_state) 4 \<and> \<not> PageFlag PG_hwpoison 4 sim_state
   \<and> fst (unpoison_memory__clone sim_env 4 sim_state) = 0
   \<and> mem (snd (unpoison_memory__clone sim_env 4 sim_state)) = mem sim_state
   \<and> mce_bad_pages (snd (unpoison_memory__clone sim_env 4 sim_state)) = 0"
  using unpoison_not_poisoned [where env = sim_env and s = sim_state and pfn = 4]
  by (simp add: sim_defs PageFlag_def the_page_def)

section \<open>Properties of classification and dispatch\<close>

lemma first_match_kernel:
  assumes "PG_reserved \<in> fl \<or> PG_slab \<in> fl"
  shows "\<exists>ps. first_match fl (error_states ext) = Some ps \<and> action ps = Me_kernel"
  using assms by (auto simp: error_states_def)

text \<open>
  C8: for a page with the reserved or the slab flag, the first rule of
  \<^verbatim>\<open>error_states[]\<close> that matches has \<^verbatim>\<open>me_kernel\<close> as its action; the
  action returns \<^verbatim>\<open>IGNORED\<close> and the state it was given; the dispatcher
  \<^verbatim>\<open>page_action\<close> logs the result "Ignored", leaves the memory (flags, counts,
  mapping and index of every page) and the ledger as they were, and returns
  \<open>- EBUSY\<close>.  The scan is the one the spec describes.
\<close>

theorem kernel_pages_ignored:
  assumes "PageFlag PG_reserved p s \<or> PageFlag PG_slab p s"
  shows "\<exists>ps. first_match (flags (the_page s p)) (error_states (PAGEFLAGS_EXTENDED env)) = Some ps
           \<and> action ps = Me_kernel
           \<and> run_action (action ps) env p pfn s = (IGNORED, s)
           \<and> mem (snd (page_action env ps p pfn s)) = mem s
           \<and> mce_bad_pages (snd (page_action env ps p pfn s)) = mce_bad_pages s
           \<and> fst (page_action env ps p pfn s) = - EBUSY
           \<and> hd (new_events s (snd (page_action env ps p pfn s))) =
               Printk ''MCE %#lx: %s%s page recovery: %s''
                 [Num (int pfn), Str (if PageFlag PG_dirty pfn s then ''dirty '' else ''''),
                  Str (msg ps), Str ''Ignored'']"
proof -
  from assms obtain ps where
    ps: "first_match (flags (the_page s p)) (error_states (PAGEFLAGS_EXTENDED env)) = Some ps"
        "action ps = Me_kernel"
    using first_match_kernel [of "flags (the_page s p)" "PAGEFLAGS_EXTENDED env"]
    by (auto simp: PageFlag_def)
  have run: "run_action (action ps) env p pfn s = (IGNORED, s)"
    by (simp add: ps me_kernel_def)
  have pa: "page_action env ps p pfn s =
      (- EBUSY,
       if page_count env s p - 1 \<noteq> 0 then
         printk ''MCE %#lx: %s page still referenced by %d users''
           [Num (int pfn), Str (msg ps), Num (page_count env s p - 1)]
           (action_result pfn (msg ps) IGNORED s)
       else action_result pfn (msg ps) IGNORED s)"
    by (simp add: page_action_def ps me_kernel_def Let_def EBUSY_def)
  show ?thesis
    apply (rule exI [of _ ps])
    apply (simp add: ps pa)
    apply (simp add: action_result_def new_events_def me_kernel_def)
    done
qed

theorem kernel_pages_ignored_witness:
  "PageFlag PG_reserved 40 sim_state
   \<and> (\<exists>ps. first_match (flags (the_page sim_state 40)) (error_states True) = Some ps
         \<and> action ps = Me_kernel
         \<and> run_action (action ps) sim_env 40 40 sim_state = (IGNORED, sim_state)
         \<and> mem (snd (page_action sim_env ps 40 40 sim_state)) = mem sim_state)"
  using kernel_pages_ignored [where env = sim_env and s = sim_state and p = 40 and pfn = 40]
  by (fastforce simp: sim_defs PageFlag_def the_page_def)

text \<open>
  C1: take a rule whose action is \<^verbatim>\<open>me_swapcache_dirty\<close> (in the table, the rule
  for a dirty page of the swap cache), let the action return \<^verbatim>\<open>DELAYED\<close>, and let
  the page have 2 references after the action beside the one the failure handler itself
  holds, which the dispatcher leaves out first (\<^verbatim>\<open>count = page_count(p) - 1\<close>).
  Then the dispatcher takes off one more for the reference the swap cache keeps, is left
  with 1, logs "still referenced by 1 users" after the line that reports the action's
  result, and returns \<open>- EBUSY\<close>, the value it returns for a result that is neither
  Recovered nor Delayed: the result has become Failed.
\<close>

theorem page_action_swapcache_dirty_still_referenced:
  assumes "action ps = Me_swapcache_dirty"
    and "run_action (action ps) env p pfn s = (DELAYED, s1)"
    and "page_count env s1 p - 1 = 2"
  shows "page_action env ps p pfn s =
     (- EBUSY,
      printk ''MCE %#lx: %s page still referenced by %d users''
        [Num (int pfn), Str (msg ps), Num 1]
        (action_result pfn (msg ps) DELAYED s1))"
  using assms by (simp add: page_action_def Let_def EBUSY_def)

lemma sim_sc_dirty_7:
  "me_swapcache_dirty sim_env 7 7 sim_state =
     (DELAYED, \<lparr>mem = \<lparr>pages = sim_page(7 := \<lparr>flags = {PG_swapcache}, count = 3, mapping = 900, index = 0\<rparr>), hidden = ()\<rparr>,
        mce_bad_pages = 0, trace = [Call (Isolate_lru_page 7)]\<rparr>)"
  apply (simp add: me_swapcache_dirty_def delete_from_lru_cache_def Let_def extern_def put_page_def
       ClearPageFlag_def set_page_def the_page_def sim_defs)
  apply (auto simp: fun_eq_iff)
  done

theorem page_action_swapcache_dirty_still_referenced_witness:
  "sc_dirty_state \<in> set (error_states True)
   \<and> flags (the_page sim_state 7) \<inter> mask sc_dirty_state = res sc_dirty_state
   \<and> action sc_dirty_state = Me_swapcache_dirty
   \<and> fst (run_action (action sc_dirty_state) sim_env 7 7 sim_state) = DELAYED
   \<and> page_count sim_env (snd (run_action (action sc_dirty_state) sim_env 7 7 sim_state)) 7 - 1 = 2
   \<and> fst (page_action sim_env sc_dirty_state 7 7 sim_state) = - EBUSY
   \<and> new_events sim_state (snd (page_action sim_env sc_dirty_state 7 7 sim_state)) =
       [Call (Isolate_lru_page 7),
        Printk ''MCE %#lx: %s%s page recovery: %s''
          [Num 7, Str '''', Str ''swapcache'', Str ''Delayed''],
        Printk ''MCE %#lx: %s page still referenced by %d users''
          [Num 7, Str ''swapcache'', Num 1]]"
  using page_action_swapcache_dirty_still_referenced
    [where ps = sc_dirty_state and env = sim_env and p = 7 and pfn = 7 and s = sim_state
       and ?s1.0 = "snd (me_swapcache_dirty sim_env 7 7 sim_state)"]
  apply (simp add: sc_dirty_state_def error_states_def sim_sc_dirty_7)
  apply (simp add: page_count_def action_result_def the_page_def PageFlag_def new_events_def printk_def emit_def)
  apply (simp add: sim_defs)
  done

section \<open>Properties of kill execution\<close>




section \<open>Properties of unmap and notify\<close>

text \<open>
  C6: when \<^verbatim>\<open>hwpoison_user_mappings\<close> reaches the propagation of the dirty bit
  (the page is neither reserved nor slab, is mapped, is neither compound nor KSM), the
  page is not marked dirty, has a mapping that can write back, and
  \<^verbatim>\<open>page_mkclean\<close> returns 0 (the page is clean), then the run makes no notify
  entry, makes none of the collector's calls, and sends no signal, forced or advisory.
\<close>

theorem hwpoison_clean_page_no_notification:
  assumes "\<not> PageFlag PG_reserved p s" and "\<not> PageFlag PG_slab p s"
    and "page_mapped env (mem s) p" and "\<not> PageCompound env p s" and "\<not> PageKsm env (mem s) p"
    and "\<not> PageFlag PG_dirty p s" and "page_mapping env (mem s) p \<noteq> 0"
    and "mapping_cap_writeback_dirty env (mem s) (page_mapping env (mem s) p)"
    and "fst (kernel env (Page_mkclean p) (mem s)) = 0"
  shows "entered (new_events s (snd (hwpoison_user_mappings env p pfn trapno s))) = []
       \<and> collected (new_events s (snd (hwpoison_user_mappings env p pfn trapno s))) = []
       \<and> forced (new_events s (snd (hwpoison_user_mappings env p pfn trapno s))) = []
       \<and> advised (new_events s (snd (hwpoison_user_mappings env p pfn trapno s))) = []"
proof -
  from hum_decompose [OF assms(1-5), of pfn trapno] assms(6-9)
  obtain s5 ret e where
    run: "hwpoison_user_mappings env p pfn trapno s =
        (ret, kill_procs_ao env [] (if PageFlag PG_dirty p s5 then 1 else 0) trapno
                (if ret \<noteq> SWAP_SUCCESS then 1 else 0) pfn s5)"
    and e: "trace s5 = trace s @ e" "forced e = []" "advised e = []" "entered e = []"
      "collected e = []"
    by auto
  have "new_events s (snd (hwpoison_user_mappings env p pfn trapno s)) = e"
    by (simp add: run e(1))
  then show ?thesis by (simp add: e)
qed

theorem hwpoison_clean_page_no_notification_witness:
  "\<not> PageFlag PG_reserved 5 sim_state \<and> \<not> PageFlag PG_slab 5 sim_state
   \<and> page_mapped sim_env (mem sim_state) 5 \<and> \<not> PageCompound sim_env 5 sim_state
   \<and> \<not> PageKsm sim_env (mem sim_state) 5 \<and> \<not> PageFlag PG_dirty 5 sim_state
   \<and> page_mapping sim_env (mem sim_state) 5 \<noteq> 0
   \<and> mapping_cap_writeback_dirty sim_env (mem sim_state) (page_mapping sim_env (mem sim_state) 5)
   \<and> fst (kernel sim_env (Page_mkclean 5) (mem sim_state)) = 0
   \<and> entered (new_events sim_state (snd (hwpoison_user_mappings sim_env 5 5 0 sim_state))) = []
   \<and> collected (new_events sim_state (snd (hwpoison_user_mappings sim_env 5 5 0 sim_state))) = []
   \<and> forced (new_events sim_state (snd (hwpoison_user_mappings sim_env 5 5 0 sim_state))) = []
   \<and> advised (new_events sim_state (snd (hwpoison_user_mappings sim_env 5 5 0 sim_state))) = []"
  using hwpoison_clean_page_no_notification
    [where env = sim_env and p = 5 and pfn = 5 and trapno = 0 and s = sim_state]
  by (simp add: PageCompound_def PageFlag_def the_page_def sim_defs)

text \<open>
  C2, as amended: in a run of \<^verbatim>\<open>hwpoison_user_mappings\<close> that does not return
  \<^verbatim>\<open>SWAP_SUCCESS\<close>, if the page is dirty when the kill decision is taken, the
  tasks killed by force are exactly the tasks of the notify entries, in order, and no
  advisory signal is sent; if the page is not dirty, no signal of either kind is sent
  (the list is only freed).  The kill step does not change the page, so its flags after
  the run are those at the decision.
\<close>

theorem unmap_failure_kills_when_dirty:
  assumes "hwpoison_user_mappings env p pfn trapno s = (ret, s')" and "ret \<noteq> SWAP_SUCCESS"
  shows "if PageFlag PG_dirty p s'
         then forced (new_events s s') = entered (new_events s s') \<and> advised (new_events s s') = []
         else forced (new_events s s') = [] \<and> advised (new_events s s') = []"
proof (cases "\<not> PageFlag PG_reserved p s \<and> \<not> PageFlag PG_slab p s
    \<and> page_mapped env (mem s) p \<and> \<not> PageCompound env p s \<and> \<not> PageKsm env (mem s) p")
  case False
  then have "s' = s"
    using assms(1) by (auto simp: hwpoison_user_mappings_def split: if_splits)
  then show ?thesis by (simp add: new_events_def)
next
  case True
  then obtain tokill s5 r e where
    run: "hwpoison_user_mappings env p pfn trapno s =
        (r, kill_procs_ao env tokill (if PageFlag PG_dirty p s5 then 1 else 0) trapno
                (if r \<noteq> SWAP_SUCCESS then 1 else 0) pfn s5)"
    and e: "trace s5 = trace s @ e" "forced e = []" "advised e = []" "entered e = map tsk tokill"
    using hum_decompose [of p s env pfn trapno] by blast
  define doit :: int where "doit = (if PageFlag PG_dirty p s5 then 1 else 0)"
  from run assms have r: "r = ret" and s': "s' = kill_procs_ao env tokill doit trapno 1 pfn s5"
    by (simp_all add: doit_def)
  have "mem s' = mem s5"
    unfolding s' by (rule kill_procs_ao_mem) simp
  then have dirty: "PageFlag PG_dirty p s' = PageFlag PG_dirty p s5"
    by (simp add: PageFlag_def the_page_def)
  from kill_procs_ao_trace [of env tokill doit trapno 1 pfn s5] obtain k where
    k: "trace s' = trace s5 @ k" "entered k = []"
       "doit = 0 \<longrightarrow> forced k = [] \<and> advised k = []"
       "doit \<noteq> 0 \<and> (1 :: int) \<noteq> 0 \<longrightarrow> forced k = map tsk tokill \<and> advised k = []"
    unfolding s' by blast
  have ev: "new_events s s' = e @ k"
    by (simp add: k(1) e(1))
  show ?thesis
    using k e by (simp add: ev dirty doit_def)
qed

theorem unmap_failure_kills_when_dirty_witness:
  "fst (hwpoison_user_mappings sim_env 31 31 0 sim_state) \<noteq> SWAP_SUCCESS
   \<and> PageFlag PG_dirty 31 (snd (hwpoison_user_mappings sim_env 31 31 0 sim_state))
   \<and> entered (new_events sim_state (snd (hwpoison_user_mappings sim_env 31 31 0 sim_state))) = [sim_task]
   \<and> forced (new_events sim_state (snd (hwpoison_user_mappings sim_env 31 31 0 sim_state))) = [sim_task]
   \<and> advised (new_events sim_state (snd (hwpoison_user_mappings sim_env 31 31 0 sim_state))) = []"
  using unmap_failure_kills_when_dirty
    [where env = sim_env and p = 31 and pfn = 31 and trapno = 0 and s = sim_state
       and ret = "fst (hwpoison_user_mappings sim_env 31 31 0 sim_state)"
       and s' = "snd (hwpoison_user_mappings sim_env 31 31 0 sim_state)"]
  by (simp add: run_defs sim_defs)

text \<open>
  C2 as stated fails: page 30 is a mapped anonymous page that is not dirty; one task is
  put on the notify list, unmapping fails five times, and no signal is sent.
\<close>

theorem unmap_failure_without_kill_counterexample:
  "fst (hwpoison_user_mappings sim_env 30 30 0 sim_state) \<noteq> SWAP_SUCCESS
   \<and> \<not> PageFlag PG_dirty 30 (snd (hwpoison_user_mappings sim_env 30 30 0 sim_state))
   \<and> entered (new_events sim_state (snd (hwpoison_user_mappings sim_env 30 30 0 sim_state))) = [sim_task]
   \<and> forced (new_events sim_state (snd (hwpoison_user_mappings sim_env 30 30 0 sim_state))) = []
   \<and> advised (new_events sim_state (snd (hwpoison_user_mappings sim_env 30 30 0 sim_state))) = []"
  by (simp add: run_defs sim_defs)

section \<open>Properties of soft offline\<close>

text \<open>
  C4: whenever \<^verbatim>\<open>soft_offline_page__clone\<close> returns, either the result is 0, the
  ledger \<^verbatim>\<open>mce_bad_pages\<close> is one more than before and the page is marked
  poisoned, or the result is not 0 and the ledger is what it was.  And when the page is
  free at entry (no flag, count zero, found by the free-page detector), the function
  returns 0, with the ledger one more, the page marked poisoned, and neither
  \<^verbatim>\<open>invalidate_inode_page\<close> nor \<^verbatim>\<open>migrate_pages\<close> called.
\<close>

theorem soft_offline_ledger_atomic:
  "(\<forall>ret s'. soft_offline_page__clone env page' flgs s = Some (ret, s') \<longrightarrow>
       (if ret = 0 then
          mce_bad_pages s' = mce_bad_pages s + 1 \<and> PageFlag PG_hwpoison page' s'
        else mce_bad_pages s' = mce_bad_pages s))
   \<and> (flgs AND MF_COUNT_INCREASED = 0
        \<and> count (the_page s (compound_head env (mem s) page')) = 0
        \<and> buddy_order env (mem s) page' 0 < MAX_ORDER env \<longrightarrow>
       (\<exists>s'. soft_offline_page__clone env page' flgs s = Some (0, s')
          \<and> mce_bad_pages s' = mce_bad_pages s + 1 \<and> PageFlag PG_hwpoison page' s'
          \<and> evacuations (new_events s s') = []))"
proof (intro conjI allI impI)
  fix ret s'
  assume "soft_offline_page__clone env page' flgs s = Some (ret, s')"
  from soft_offline_ledger [OF this]
  show "if ret = 0 then
          mce_bad_pages s' = mce_bad_pages s + 1 \<and> PageFlag PG_hwpoison page' s'
        else mce_bad_pages s' = mce_bad_pages s"
    by (auto simp: ledger_rule_def split: if_splits)
next
  assume a: "flgs AND MF_COUNT_INCREASED = 0
        \<and> count (the_page s (compound_head env (mem s) page')) = 0
        \<and> buddy_order env (mem s) page' 0 < MAX_ORDER env"
  define s1 where "s1 = snd (get_any_page env page' page' flgs s)"
  have g: "get_any_page env page' page' flgs s = (0, s1)"
    and tr: "trace s1 = trace s @
       [Call Lock_system_sleep, Call (Set_migratetype_isolate page'),
        Call (Spin_lock_irqsave_zone page'), Call (Spin_unlock_irqrestore_zone page'),
        Printk ''get_any_page: %#lx free buddy page'' [Num (int page')],
        Call (Unset_migratetype_isolate page'), Call Unlock_system_sleep]"
    and l: "mce_bad_pages s1 = mce_bad_pages s"
    using a by (simp_all add: s1_def get_any_page_free)
  have run: "soft_offline_page__clone env page' flgs s = Some (soft_offline_done page' 0 s1)"
    by (simp add: soft_offline_page__clone_def g)
  have tr': "trace (snd (soft_offline_done page' 0 s1)) = trace s1"
    by (simp add: soft_offline_done_def atomic_long_add_def SetPageFlag_def)
  show "\<exists>s'. soft_offline_page__clone env page' flgs s = Some (0, s')
          \<and> mce_bad_pages s' = mce_bad_pages s + 1 \<and> PageFlag PG_hwpoison page' s'
          \<and> evacuations (new_events s s') = []"
    apply (rule exI [of _ "snd (soft_offline_done page' 0 s1)"])
    using soft_offline_done_ledger [of page' 0 s1]
    apply (simp add: run l prod_eq_iff tr' tr)
    done
qed

theorem soft_offline_ledger_atomic_witness:
  "(0 :: int) AND MF_COUNT_INCREASED = 0
   \<and> count (the_page sim_state (compound_head sim_env (mem sim_state) 8)) = 0
   \<and> buddy_order sim_env (mem sim_state) 8 0 < MAX_ORDER sim_env
   \<and> (\<exists>s'. soft_offline_page__clone sim_env 8 0 sim_state = Some (0, s')
          \<and> mce_bad_pages s' = 1 \<and> PageFlag PG_hwpoison 8 s'
          \<and> evacuations (new_events sim_state s') = [])
   \<and> (\<exists>s'. soft_offline_page__clone sim_env 20 0 sim_state = Some (- EIO, s')
          \<and> mce_bad_pages s' = 0)
   \<and> (\<exists>s'. soft_offline_page__clone sim_env 4 0 sim_state = Some (0, s')
          \<and> mce_bad_pages s' = 1 \<and> PageFlag PG_hwpoison 4 s'
          \<and> evacuations (new_events sim_state s') = [Invalidate_inode_page 4])"
proof -
  have free: "(0 :: int) AND MF_COUNT_INCREASED = 0
      \<and> count (the_page sim_state (compound_head sim_env (mem sim_state) 8)) = 0
      \<and> buddy_order sim_env (mem sim_state) 8 0 < MAX_ORDER sim_env"
    using sim_buddy_8 by (simp add: sim_defs the_page_def)
  have r20: "\<exists>s'. soft_offline_page__clone sim_env 20 0 sim_state = Some (- EIO, s')"
    using sim_buddy_20 by (simp add: offline_defs sim_defs)
  have r4: "\<exists>s'. soft_offline_page__clone sim_env 4 0 sim_state = Some (0, s')
          \<and> evacuations (new_events sim_state s') = [Invalidate_inode_page 4]"
    by (simp add: offline_defs sim_defs)
  from soft_offline_ledger_atomic [where env = sim_env and page' = 8 and flgs = 0 and s = sim_state]
    soft_offline_ledger_atomic [where env = sim_env and page' = 20 and flgs = 0 and s = sim_state]
    soft_offline_ledger_atomic [where env = sim_env and page' = 4 and flgs = 0 and s = sim_state]
    free r20 r4
  show ?thesis
    apply (simp only: free simp_thms)
    apply (elim conjE exE)
    apply (auto simp: sim_state_def EIO_def)
    done
qed

text \<open>
  C5 does not hold of the code.  \<^verbatim>\<open>soft_offline_page__clone\<close> gives up the
  reference it holds with \<^verbatim>\<open>put_page\<close> right after the attempt to invalidate the
  page, before it looks at the result and before any migration, although the comment at
  its label \<^verbatim>\<open>done:\<close> reads "keep elevated page count for bad page".  Page 4 is a
  clean page of the page cache on the LRU list, with the page cache's reference alone:
  it is invalidated, its count goes from 1 to 0, \<^verbatim>\<open>put_page\<close> hands it to the
  allocator, and the call then marks it poisoned, moves the ledger and returns 0.  Page 41
  is dirty and is migrated: the call returns 0 and the count has gone from 2 to 1.
\<close>

theorem soft_offline_drops_reference:
  "soft_offline_page__clone sim_env 4 0 sim_state \<noteq> None
   \<and> fst (the (soft_offline_page__clone sim_env 4 0 sim_state)) = 0
   \<and> evacuations (new_events sim_state (snd (the (soft_offline_page__clone sim_env 4 0 sim_state))))
       = [Invalidate_inode_page 4]
   \<and> count (the_page sim_state 4) = 1
   \<and> count (the_page (snd (the (soft_offline_page__clone sim_env 4 0 sim_state))) 4) = 0
   \<and> Call (Free_page 4)
       \<in> set (new_events sim_state (snd (the (soft_offline_page__clone sim_env 4 0 sim_state))))
   \<and> PageFlag PG_hwpoison 4 (snd (the (soft_offline_page__clone sim_env 4 0 sim_state)))
   \<and> mce_bad_pages (snd (the (soft_offline_page__clone sim_env 4 0 sim_state))) = 1
   \<and> soft_offline_page__clone sim_env 41 0 sim_state \<noteq> None
   \<and> fst (the (soft_offline_page__clone sim_env 41 0 sim_state)) = 0
   \<and> evacuations (new_events sim_state (snd (the (soft_offline_page__clone sim_env 41 0 sim_state))))
       = [Invalidate_inode_page 41, Migrate_pages 41]
   \<and> count (the_page sim_state 41) = 2
   \<and> count (the_page (snd (the (soft_offline_page__clone sim_env 41 0 sim_state))) 41) = 1"
  by (simp add: offline_defs sim_defs)

end
